theory Spec2Isabelle
  imports Main "HOL-Library.Multiset"
begin

section \<open>JavaScript strings and arrays\<close>

text \<open>
  The extension is written in TypeScript. Its strings are modelled as \<^typ>\<open>string\<close>, one
  \<^typ>\<open>char\<close> per code unit.

  \<^verbatim>\<open>s.toUpperCase()\<close> and \<^verbatim>\<open>s.toLowerCase()\<close> are the case conversions of Unicode:
  they know letters beyond ASCII and may change the length of a string. They belong to the
  language's library, not to the extension, so every function of the extension that calls
  them takes them as the parameters \<open>toUpperCase\<close> and \<open>toLowerCase\<close>, and what is proved
  of such a function holds for every conversion. Only on ASCII strings is the conversion
  written out: there it acts character by character, exchanges the letters \<open>a\<close> to \<open>z\<close>
  and \<open>A\<close> to \<open>Z\<close> and leaves every other character alone.
\<close>

definition is_upper :: "char \<Rightarrow> bool" where
  "is_upper c = (65 \<le> (of_char c :: nat) \<and> (of_char c :: nat) \<le> 90)"

definition is_lower :: "char \<Rightarrow> bool" where
  "is_lower c = (97 \<le> (of_char c :: nat) \<and> (of_char c :: nat) \<le> 122)"

definition is_digit :: "char \<Rightarrow> bool" where
  "is_digit c = (48 \<le> (of_char c :: nat) \<and> (of_char c :: nat) \<le> 57)"

definition upper_char :: "char \<Rightarrow> char" where
  "upper_char c = (if is_lower c then char_of (of_char c - (32::nat)) else c)"

definition lower_char :: "char \<Rightarrow> char" where
  "lower_char c = (if is_upper c then char_of (of_char c + (32::nat)) else c)"

definition is_ascii :: "char \<Rightarrow> bool" where
  "is_ascii c = ((of_char c :: nat) < 128)"

text \<open>The case conversions on ASCII strings.\<close>

definition ascii_toUpperCase :: "string \<Rightarrow> string" where
  "ascii_toUpperCase s = map upper_char s"

definition ascii_toLowerCase :: "string \<Rightarrow> string" where
  "ascii_toLowerCase s = map lower_char s"

text \<open>
  What is known of the library's conversions: on a string of ASCII characters they are
  the conversions above.
\<close>

definition ascii_case :: "(string \<Rightarrow> string) \<Rightarrow> (string \<Rightarrow> string) \<Rightarrow> bool" where
  "ascii_case toUpperCase toLowerCase =
     (\<forall>s. list_all is_ascii s \<longrightarrow>
        toUpperCase s = ascii_toUpperCase s \<and> toLowerCase s = ascii_toLowerCase s)"

text \<open>\<^verbatim>\<open>s.charAt(i)\<close>: the one-character string at index \<open>i\<close>, the empty string out of range.\<close>

definition charAt :: "string \<Rightarrow> nat \<Rightarrow> string" where
  "charAt s i = (if i < length s then [s ! i] else [])"

text \<open>\<^verbatim>\<open>s.slice(start)\<close> for a start index that is not negative: the rest of the string
  from that index, the empty string when the string is shorter.\<close>

definition slice :: "string \<Rightarrow> nat \<Rightarrow> string" where
  "slice s start = drop start s"

text \<open>\<^verbatim>\<open>s.split(d)\<close> for a one-character separator: the pieces between the separators,
  empty pieces included; the empty string splits into one empty piece.\<close>

fun split :: "string \<Rightarrow> char \<Rightarrow> string list" where
  "split [] d = [[]]"
| "split (c # cs) d =
     (if c = d then [] # split cs d
      else (case split cs d of
              [] \<Rightarrow> [[c]]
            | chunk # chunks \<Rightarrow> (c # chunk) # chunks))"

text \<open>\<^verbatim>\<open>xs.join(sep)\<close> on an array of strings.\<close>

fun join :: "string list \<Rightarrow> string \<Rightarrow> string" where
  "join [] sep = []"
| "join [x] sep = x"
| "join (x # y # ys) sep = x @ sep @ join (y # ys) sep"

text \<open>\<^verbatim>\<open>xs.find(p)\<close>: the first element, by ascending index, that satisfies the predicate;
  \<open>None\<close> stands for \<^verbatim>\<open>undefined\<close>.\<close>

fun array_find :: "'a list \<Rightarrow> ('a \<Rightarrow> bool) \<Rightarrow> 'a option" where
  "array_find [] p = None"
| "array_find (x # xs) p = (if p x then Some x else array_find xs p)"

section \<open>JavaScript objects\<close>

text \<open>
  An object that \<^verbatim>\<open>JSON.parse\<close> returns is modelled by its own properties in the order
  in which they were created, which is the order of the keys in the document; the keys of
  an object are distinct. \<^verbatim>\<open>Object.keys\<close> does not return the keys in that order: the
  keys that are array indices (canonical decimal numerals below \<open>2\<^sup>3\<^sup>2 - 1\<close>) come first, in
  ascending numeric order, and the other keys follow in creation order.
\<close>

type_synonym 'v js_object = "(string \<times> 'v) list"

datatype js_error = TypeError | SyntaxError | IOError

definition digit_value :: "char \<Rightarrow> nat" where
  "digit_value c = of_char c - 48"

definition decimal_value :: "string \<Rightarrow> nat" where
  "decimal_value k = foldl (\<lambda>n c. 10 * n + digit_value c) 0 k"

definition canonical_numeric :: "string \<Rightarrow> bool" where
  "canonical_numeric k =
     (k \<noteq> [] \<and> list_all is_digit k \<and> (k = ''0'' \<or> hd k \<noteq> CHR ''0''))"

definition is_array_index :: "string \<Rightarrow> bool" where
  "is_array_index k = (canonical_numeric k \<and> decimal_value k < 4294967295)"

definition Object_keys :: "'v js_object \<Rightarrow> string list" where
  "Object_keys obj =
     (let ks = map fst obj
      in sort_key decimal_value (filter is_array_index ks) @
         filter (\<lambda>k. \<not> is_array_index k) ks)"

text \<open>\<^verbatim>\<open>obj[key]\<close>: the property's value, \<open>None\<close> (\<^verbatim>\<open>undefined\<close>) when there is none.\<close>

definition get_property :: "'v js_object \<Rightarrow> string \<Rightarrow> 'v option" where
  "get_property obj key = map_of obj key"

section \<open>The data model of \<^verbatim>\<open>src/extension.ts\<close>\<close>

record FiveMNativeParam =
  param_name :: string
  param_type :: string

text \<open>\<^verbatim>\<open>type FiveMNativeResults = string | string[] | undefined\<close>\<close>

datatype FiveMNativeResults =
    Undefined
  | Single string
  | Multiple "string list"

record FiveMNative =
  name :: string
  hash :: "string option"
  params :: "FiveMNativeParam list option"
  results :: FiveMNativeResults
  description :: "string option"
  module :: "string option"

text \<open>
  A native definition of the catalog document, as \<^verbatim>\<open>JSON.parse\<close> returns it:
  \<^verbatim>\<open>{name, params?, results?, description?}\<close>. A field that the document leaves out is
  \<open>None\<close> (\<open>Undefined\<close> for the results). The catalog maps module names to objects that map
  hashes to native definitions.
\<close>

record NativeDefinition =
  def_name :: "string option"
  def_params :: "FiveMNativeParam list option"
  def_results :: FiveMNativeResults
  def_description :: "string option"

type_synonym RawCatalog = "NativeDefinition js_object js_object"

section \<open>Name casing and type mapping\<close>

text \<open>The regular expression \<^verbatim>\<open>/^[A-Z0-9_]+$/\<close>, tested against the whole string.\<close>

definition upper_snake_char :: "char \<Rightarrow> bool" where
  "upper_snake_char c = (is_upper c \<or> is_digit c \<or> c = CHR ''_'')"

definition test_upper_snake :: "string \<Rightarrow> bool" where
  "test_upper_snake s = (s \<noteq> [] \<and> list_all upper_snake_char s)"

definition toPascalCase ::
  "(string \<Rightarrow> string) \<Rightarrow> (string \<Rightarrow> string) \<Rightarrow> string \<Rightarrow> string"
where
  "toPascalCase toUpperCase toLowerCase s =
     (if test_upper_snake s then
        join (map (\<lambda>chunk. toUpperCase (charAt chunk 0) @ toLowerCase (slice chunk 1))
                  (split s CHR ''_'')) ''''
      else toUpperCase (charAt s 0) @ slice s 1)"

definition mapType :: "(string \<Rightarrow> string) \<Rightarrow> string \<Rightarrow> string" where
  "mapType toLowerCase type =
     (let t = toLowerCase type
      in if t = ''char*'' then ''string''
         else if t = ''float'' then ''number''
         else if t = ''int'' then ''number''
         else if t = ''bool'' then ''boolean''
         else toLowerCase type)"

section \<open>Flattening the catalog\<close>

text \<open>
  \<^verbatim>\<open>parseNatives\<close> runs two nested loops over \<^verbatim>\<open>Object.keys\<close> and pushes one record for
  every definition whose name is truthy, that is, a string that is not empty.
  \<^verbatim>\<open>x || d\<close> takes \<open>d\<close> when \<open>x\<close> is \<^verbatim>\<open>undefined\<close> or the empty string; an array is
  always truthy. \<^verbatim>\<open>Object.keys(undefined)\<close> throws a \<^verbatim>\<open>TypeError\<close>.
\<close>

definition make_native :: "string \<Rightarrow> string \<Rightarrow> string \<Rightarrow> NativeDefinition \<Rightarrow> FiveMNative" where
  "make_native moduleName nativeHash nm nativeDef =
     \<lparr> name = nm,
       hash = Some nativeHash,
       params = Some (case def_params nativeDef of None \<Rightarrow> [] | Some ps \<Rightarrow> ps),
       results = def_results nativeDef,
       description =
         Some (case def_description nativeDef of
                 None \<Rightarrow> []
               | Some d \<Rightarrow> if d \<noteq> [] then d else []),
       module = Some moduleName \<rparr>"

fun parseNatives_inner ::
  "string \<Rightarrow> NativeDefinition js_object \<Rightarrow> string list \<Rightarrow> FiveMNative list \<Rightarrow> FiveMNative list"
where
  "parseNatives_inner moduleName moduleObj [] result = result"
| "parseNatives_inner moduleName moduleObj (nativeHash # hashes) result =
     (case get_property moduleObj nativeHash of
        None \<Rightarrow> parseNatives_inner moduleName moduleObj hashes result
      | Some nativeDef \<Rightarrow>
          (case def_name nativeDef of
             None \<Rightarrow> parseNatives_inner moduleName moduleObj hashes result
           | Some nm \<Rightarrow>
               if nm \<noteq> [] then
                 parseNatives_inner moduleName moduleObj hashes
                   (result @ [make_native moduleName nativeHash nm nativeDef])
               else parseNatives_inner moduleName moduleObj hashes result))"

fun parseNatives_outer ::
  "RawCatalog \<Rightarrow> string list \<Rightarrow> FiveMNative list \<Rightarrow> js_error + FiveMNative list"
where
  "parseNatives_outer nativesData [] result = Inr result"
| "parseNatives_outer nativesData (moduleName # moduleNames) result =
     (case get_property nativesData moduleName of
        None \<Rightarrow> Inl TypeError
      | Some moduleObj \<Rightarrow>
          parseNatives_outer nativesData moduleNames
            (parseNatives_inner moduleName moduleObj (Object_keys moduleObj) result))"

definition parseNatives :: "RawCatalog \<Rightarrow> js_error + FiveMNative list" where
  "parseNatives nativesData = parseNatives_outer nativesData (Object_keys nativesData) []"

section \<open>Completion items\<close>

text \<open>
  The editor's \<^verbatim>\<open>SnippetString\<close> is modelled by the ordered list of its parts: the
  text given to the constructor, the literal texts appended after it and the placeholders,
  each with the number of its tab stop. The first placeholder gets tab stop 1.
\<close>

datatype snippet_part =
    Template string
  | Text string
  | Placeholder nat string

record SnippetString =
  parts :: "snippet_part list"
  tabstop :: nat

definition new_SnippetString :: "string \<Rightarrow> SnippetString" where
  "new_SnippetString v = \<lparr> parts = [Template v], tabstop = 1 \<rparr>"

definition appendText :: "string \<Rightarrow> SnippetString \<Rightarrow> SnippetString" where
  "appendText s snippet = snippet\<lparr> parts := parts snippet @ [Text s] \<rparr>"

definition appendPlaceholder :: "string \<Rightarrow> SnippetString \<Rightarrow> SnippetString" where
  "appendPlaceholder s snippet =
     snippet\<lparr> parts := parts snippet @ [Placeholder (tabstop snippet) s],
              tabstop := tabstop snippet + 1 \<rparr>"

text \<open>An item without an insert text of its own inserts its label.\<close>

record CompletionItem =
  label :: string
  detail :: string
  documentation :: string
  insertText :: "SnippetString option"

text \<open>A template literal prints an absent value as \<^verbatim>\<open>undefined\<close>.\<close>

definition interpolate :: "string option \<Rightarrow> string" where
  "interpolate x = (case x of None \<Rightarrow> ''undefined'' | Some s \<Rightarrow> s)"

text \<open>
  \<^verbatim>\<open>Array.isArray(native.results) ? native.results.join(" | ") : native.results || "void"\<close>
\<close>

definition returns :: "FiveMNativeResults \<Rightarrow> string" where
  "returns r =
     (case r of
        Multiple xs \<Rightarrow> join xs '' | ''
      | Single s \<Rightarrow> if s \<noteq> [] then s else ''void''
      | Undefined \<Rightarrow> ''void'')"

definition paramList ::
  "(string \<Rightarrow> string) \<Rightarrow> FiveMNativeParam list option \<Rightarrow> string"
where
  "paramList toLowerCase ps =
     (case ps of
        None \<Rightarrow> []
      | Some ps \<Rightarrow>
          join (map (\<lambda>p. mapType toLowerCase (param_type p) @ '' '' @ param_name p) ps) '', '')"

definition docString :: "(string \<Rightarrow> string) \<Rightarrow> FiveMNative \<Rightarrow> string" where
  "docString toLowerCase native =
     [CHR 0x0A] @ ''**Description:** '' @
       (case description native of
          None \<Rightarrow> ''No description''
        | Some d \<Rightarrow> if d \<noteq> [] then d else ''No description'') @
     [CHR 0x0A] @ ''**Parameters:** `'' @ paramList toLowerCase (params native) @ ''`'' @
     [CHR 0x0A] @ ''**Returns:** `'' @ returns (results native) @ ''`'' @
     [CHR 0x0A] @ ''**Module:** `'' @ interpolate (module native) @ ''`'' @
     [CHR 0x0A] @ ''**Hash:** `'' @ interpolate (hash native) @ ''`'' @
     [CHR 0x0A, CHR 0x09, CHR 0x09, CHR 0x09]"

text \<open>The loop \<^verbatim>\<open>for (let i = 0; i < native.params.length; i++)\<close> of the snippet.\<close>

function snippet_loop ::
  "(string \<Rightarrow> string) \<Rightarrow> FiveMNativeParam list \<Rightarrow> nat \<Rightarrow> SnippetString \<Rightarrow> SnippetString"
where
  "snippet_loop toLowerCase ps i snippet =
     (if i < length ps then
        (let param = ps ! i;
             snippet1 = appendText [CHR 0x0A, CHR 0x09] snippet;
             snippet2 = appendPlaceholder
                          (param_name param @ '': '' @ mapType toLowerCase (param_type param))
                          snippet1;
             snippet3 = (if i < length ps - 1 then appendText '','' snippet2 else snippet2)
         in snippet_loop toLowerCase ps (i + 1) snippet3)
      else snippet)"
  by pat_completeness auto
termination
  by (relation "measure (\<lambda>(toLowerCase, ps, i, snippet). length ps - i)") auto

declare snippet_loop.simps [simp del]

definition build_snippet ::
  "(string \<Rightarrow> string) \<Rightarrow> string \<Rightarrow> FiveMNativeParam list option \<Rightarrow> SnippetString"
where
  "build_snippet toLowerCase funcName ps =
     (let snippet = new_SnippetString (funcName @ ''('');
          snippet1 =
            (case ps of
               None \<Rightarrow> appendText '')'' snippet
             | Some ps \<Rightarrow>
                 if length ps > 0 then
                   appendText ([CHR 0x0A] @ '')'') (snippet_loop toLowerCase ps 0 snippet)
                 else appendText '')'' snippet)
      in appendText '';'' snippet1)"

definition completion_item ::
  "(string \<Rightarrow> string) \<Rightarrow> (string \<Rightarrow> string) \<Rightarrow> FiveMNative \<Rightarrow> CompletionItem"
where
  "completion_item toUpperCase toLowerCase native =
     (let funcName = toPascalCase toUpperCase toLowerCase (name native)
      in \<lparr> label = funcName,
           detail = interpolate (module native) @ '' - Hash: '' @ interpolate (hash native),
           documentation = docString toLowerCase native,
           insertText = Some (build_snippet toLowerCase funcName (params native)) \<rparr>)"

definition provideCompletionItems ::
  "(string \<Rightarrow> string) \<Rightarrow> (string \<Rightarrow> string) \<Rightarrow> FiveMNative list \<Rightarrow> CompletionItem list"
where
  "provideCompletionItems toUpperCase toLowerCase natives =
     map (completion_item toUpperCase toLowerCase) natives"

section \<open>Activation\<close>

text \<open>
  The file system and \<^verbatim>\<open>JSON.parse\<close> are the environment of \<^verbatim>\<open>activate\<close>: the catalog
  file is \<open>None\<close> when \<^verbatim>\<open>fs.existsSync\<close> says it is missing, and otherwise what
  \<^verbatim>\<open>fs.readFileSync\<close> does, its text or the error it throws; \<^verbatim>\<open>JSON.parse\<close> is a
  parameter that returns the parsed catalog or throws. The result of \<^verbatim>\<open>activate\<close> is the
  error that leaves it, or the messages shown and the registrations pushed to the
  subscriptions.
\<close>

datatype message =
    InformationMessage string
  | WarningMessage string
  | ErrorMessage string

datatype registration =
    NativesCompletionProvider "FiveMNative list"
  | EventsCompletionProvider
  | DefinitionProvider "FiveMNative list"
  | Command string

record activation =
  shown :: "message list"
  subscriptions :: "registration list"

text \<open>The body of the \<^verbatim>\<open>try\<close> block.\<close>

definition read_and_parse ::
  "(string \<Rightarrow> js_error + RawCatalog) \<Rightarrow> js_error + string \<Rightarrow> js_error + FiveMNative list"
where
  "read_and_parse JSON_parse readFileSync =
     (case readFileSync of
        Inl e \<Rightarrow> Inl e
      | Inr rawData \<Rightarrow>
          (case JSON_parse rawData of
             Inl e \<Rightarrow> Inl e
           | Inr parsed \<Rightarrow> parseNatives parsed))"

definition activate ::
  "(string \<Rightarrow> js_error + RawCatalog) \<Rightarrow> (js_error + string) option \<Rightarrow> js_error + activation"
where
  "activate JSON_parse nativesFile =
     (let (allNatives, msgs) =
            (case nativesFile of
               Some readFileSync \<Rightarrow>
                 (case read_and_parse JSON_parse readFileSync of
                    Inr natives \<Rightarrow> (natives, [])
                  | Inl e \<Rightarrow> ([], [ErrorMessage ''Failed to parse natives.json'']))
             | None \<Rightarrow> ([], [WarningMessage ''natives.json not found in the data folder.'']))
      in Inr \<lparr> shown = msgs @ [InformationMessage ''FiveMDevKit is now active!''],
               subscriptions =
                 [NativesCompletionProvider allNatives, EventsCompletionProvider,
                  Command ''fivemdevkit.helloWorld'', Command ''fivemdevkit.debugResource''] \<rparr>)"

section \<open>The other revision of the extension\<close>

text \<open>
  A second file of the repository holds another revision of \<^verbatim>\<open>src/extension.ts\<close>. It
  has the same \<^verbatim>\<open>parseNatives\<close>, an \<^verbatim>\<open>activate\<close> without the \<^verbatim>\<open>try\<close> block, a
  completion provider that neither changes the names nor maps the types, and the
  definition provider, which \<^verbatim>\<open>src/extension.ts\<close> does not have.
\<close>

definition activate_other ::
  "(string \<Rightarrow> js_error + RawCatalog) \<Rightarrow> (js_error + string) option \<Rightarrow> js_error + activation"
where
  "activate_other JSON_parse nativesFile =
     (case (case nativesFile of
              Some readFileSync \<Rightarrow>
                (case read_and_parse JSON_parse readFileSync of
                   Inr natives \<Rightarrow> Inr (natives, [])
                 | Inl e \<Rightarrow> Inl e)
            | None \<Rightarrow>
                Inr ([], [WarningMessage
                  (''FiveM natives.json not found. Please run '' @ [CHR 0x22] @
                   ''npm run fetch-natives'' @ [CHR 0x22] @
                   '' or place the file in the data folder.'')])) of
        Inl e \<Rightarrow> Inl e
      | Inr (allNatives, msgs) \<Rightarrow>
          Inr \<lparr> shown = msgs @ [InformationMessage ''FiveMDevKit is now active!''],
                subscriptions =
                  [NativesCompletionProvider allNatives, DefinitionProvider allNatives,
                   Command ''fivemdevkit.helloWorld'', Command ''fivemdevkit.debugResource''] \<rparr>)"

definition returns_other :: "FiveMNativeResults \<Rightarrow> string" where
  "returns_other r =
     (let resultsArray = (case r of Single s \<Rightarrow> [s] | Multiple xs \<Rightarrow> xs | Undefined \<Rightarrow> [])
      in if length resultsArray > 0 then join resultsArray '' | '' else ''void'')"

text \<open>
  \<^verbatim>\<open>native.params?.map((p) => `${p.type} ${p.name}`).join(", ") || ""\<close>
\<close>

definition params_other :: "FiveMNativeParam list option \<Rightarrow> string" where
  "params_other ps =
     (case ps of
        None \<Rightarrow> []
      | Some ps \<Rightarrow>
          (let joined = join (map (\<lambda>p. param_type p @ '' '' @ param_name p) ps) '', ''
           in if joined \<noteq> [] then joined else []))"

definition docString_other :: "FiveMNative \<Rightarrow> string" where
  "docString_other native =
     [CHR 0x0A] @ ''**Description**: '' @
       (case description native of
          None \<Rightarrow> ''No description''
        | Some d \<Rightarrow> if d \<noteq> [] then d else ''No description'') @ ''  '' @
     [CHR 0x0A] @ ''**Parameters**: `'' @ params_other (params native) @ ''`  '' @
     [CHR 0x0A] @ ''**Returns**: `'' @ returns_other (results native) @ ''`  '' @
     [CHR 0x0A] @ ''**Module**: `'' @ interpolate (module native) @ ''`'' @
     [CHR 0x0A] @ ''**Hash**: `'' @ interpolate (hash native) @ ''`'' @
     [CHR 0x0A, CHR 0x09, CHR 0x09, CHR 0x09]"

text \<open>The loop of the snippet: the names of the parameters, no types, on one line.\<close>

function snippet_loop_other :: "FiveMNativeParam list \<Rightarrow> nat \<Rightarrow> SnippetString \<Rightarrow> SnippetString" where
  "snippet_loop_other ps i snippet =
     (if i < length ps then
        (let snippet1 = appendPlaceholder (param_name (ps ! i)) snippet;
             snippet2 = (if i < length ps - 1 then appendText '', '' snippet1 else snippet1)
         in snippet_loop_other ps (i + 1) snippet2)
      else snippet)"
  by pat_completeness auto
termination
  by (relation "measure (\<lambda>(ps, i, snippet). length ps - i)") auto

declare snippet_loop_other.simps [simp del]

text \<open>The snippet is built, and the insert text set, only when there are parameters.\<close>

definition completion_item_other :: "FiveMNative \<Rightarrow> CompletionItem" where
  "completion_item_other native =
     \<lparr> label = name native,
       detail = interpolate (module native) @ '' - Hash: '' @ interpolate (hash native),
       documentation = docString_other native,
       insertText =
         (case params native of
            None \<Rightarrow> None
          | Some ps \<Rightarrow>
              if length ps > 0 then
                Some (appendText '')''
                        (snippet_loop_other ps 0 (new_SnippetString (name native @ ''(''))))
              else None) \<rparr>"

definition provideCompletionItems_other :: "FiveMNative list \<Rightarrow> CompletionItem list" where
  "provideCompletionItems_other natives = map completion_item_other natives"

text \<open>
  \<^verbatim>\<open>provideDefinition\<close>: the word under the cursor is \<open>None\<close> when the document has no word
  range at the position. The outcome is the list of the addresses handed to
  \<^verbatim>\<open>vscode.env.openExternal\<close> and the value returned, \<open>None\<close> for \<^verbatim>\<open>undefined\<close>.
\<close>

datatype Location = Location string nat nat

record definition_outcome =
  opened :: "string list"
  returned :: "Location option"

definition find_native ::
  "(string \<Rightarrow> string) \<Rightarrow> FiveMNative list \<Rightarrow> string \<Rightarrow> FiveMNative option"
where
  "find_native toLowerCase natives word =
     array_find natives (\<lambda>n. toLowerCase (name n) = toLowerCase word)"

text \<open>\<^verbatim>\<open>match.hash?.slice(2) || ""\<close>\<close>

definition hash_suffix :: "string option \<Rightarrow> string" where
  "hash_suffix h =
     (case h of
        None \<Rightarrow> []
      | Some s \<Rightarrow> if slice s 2 \<noteq> [] then slice s 2 else [])"

definition docUrl :: "FiveMNative \<Rightarrow> string" where
  "docUrl match = ''https://docs.fivem.net/natives/?_0x'' @ hash_suffix (hash match)"

definition provideDefinition ::
  "(string \<Rightarrow> string) \<Rightarrow> FiveMNative list \<Rightarrow> string option \<Rightarrow> definition_outcome"
where
  "provideDefinition toLowerCase natives wordAtPosition =
     (case wordAtPosition of
        None \<Rightarrow> \<lparr> opened = [], returned = None \<rparr>
      | Some word \<Rightarrow>
          (case find_native toLowerCase natives word of
             Some match \<Rightarrow> \<lparr> opened = [docUrl match], returned = None \<rparr>
           | None \<Rightarrow> \<lparr> opened = [], returned = None \<rparr>))"

section \<open>The specification's reading of the catalog\<close>

text \<open>
  The specification describes normalization on the catalog as a document: the modules in
  the order of the document and, within each, the entries in the order of the document,
  keeping the entries that have a name.
\<close>

definition has_name :: "NativeDefinition \<Rightarrow> bool" where
  "has_name d = (def_name d \<noteq> None \<and> def_name d \<noteq> Some [])"

definition normalized_record :: "string \<Rightarrow> string \<Rightarrow> NativeDefinition \<Rightarrow> FiveMNative" where
  "normalized_record m h d =
     \<lparr> name = (case def_name d of None \<Rightarrow> [] | Some n \<Rightarrow> n),
       hash = Some h,
       params = (case def_params d of None \<Rightarrow> Some [] | Some ps \<Rightarrow> Some ps),
       results = def_results d,
       description = (case def_description d of None \<Rightarrow> Some [] | Some t \<Rightarrow> Some t),
       module = Some m \<rparr>"

definition normalize_in_order :: "RawCatalog \<Rightarrow> FiveMNative list" where
  "normalize_in_order raw =
     concat (map (\<lambda>(m, es). map (\<lambda>(h, d). normalized_record m h d)
                                 (filter (\<lambda>(h, d). has_name d) es)) raw)"

definition named_count :: "RawCatalog \<Rightarrow> nat" where
  "named_count raw = sum_list (map (\<lambda>(m, es). length (filter (\<lambda>(h, d). has_name d) es)) raw)"

text \<open>The properties of an object in the order of \<open>Object_keys\<close>.\<close>

definition own_entries :: "'v js_object \<Rightarrow> (string \<times> 'v) list" where
  "own_entries obj =
     List.map_filter (\<lambda>k. map_option (Pair k) (get_property obj k)) (Object_keys obj)"

definition enumeration_order :: "RawCatalog \<Rightarrow> RawCatalog" where
  "enumeration_order raw = map (\<lambda>(m, es). (m, own_entries es)) (own_entries raw)"

definition distinct_keys :: "'v js_object \<Rightarrow> bool" where
  "distinct_keys obj = distinct (map fst obj)"

definition well_formed :: "RawCatalog \<Rightarrow> bool" where
  "well_formed raw = (distinct_keys raw \<and> list_all (\<lambda>(m, es). distinct_keys es) raw)"

definition no_index_keys :: "RawCatalog \<Rightarrow> bool" where
  "no_index_keys raw =
     (list_all (\<lambda>(m, es). \<not> is_array_index m \<and> list_all (\<lambda>(h, d). \<not> is_array_index h) es) raw)"

section \<open>The specification's reading of the display name and the insert template\<close>

text \<open>
  A chunk with its first character in upper case and the rest in lower case, and a string
  with only its first character in upper case, for the library's conversions.
\<close>

definition capitalize ::
  "(string \<Rightarrow> string) \<Rightarrow> (string \<Rightarrow> string) \<Rightarrow> string \<Rightarrow> string"
where
  "capitalize toUpperCase toLowerCase chunk = toUpperCase (take 1 chunk) @ toLowerCase (drop 1 chunk)"

definition capitalize_first :: "(string \<Rightarrow> string) \<Rightarrow> string \<Rightarrow> string" where
  "capitalize_first toUpperCase s = toUpperCase (take 1 s) @ drop 1 s"

text \<open>The same on ASCII strings, character by character.\<close>

fun capitalize_chunk :: "string \<Rightarrow> string" where
  "capitalize_chunk [] = []"
| "capitalize_chunk (c # cs) = upper_char c # map lower_char cs"

fun upper_first :: "string \<Rightarrow> string" where
  "upper_first [] = []"
| "upper_first (c # cs) = upper_char c # cs"

text \<open>
  The hint of a placeholder, and the parameters of a template from tab stop \<open>n\<close> on: each
  placeholder on a line of its own, a comma after each but the last.
\<close>

definition placeholder_hint :: "(string \<Rightarrow> string) \<Rightarrow> FiveMNativeParam \<Rightarrow> string" where
  "placeholder_hint toLowerCase p = param_name p @ '': '' @ mapType toLowerCase (param_type p)"

fun template_params ::
  "(string \<Rightarrow> string) \<Rightarrow> nat \<Rightarrow> FiveMNativeParam list \<Rightarrow> snippet_part list"
where
  "template_params toLowerCase n [] = []"
| "template_params toLowerCase n [p] =
     [Text [CHR 0x0A, CHR 0x09], Placeholder n (placeholder_hint toLowerCase p)]"
| "template_params toLowerCase n (p # q # ps) =
     [Text [CHR 0x0A, CHR 0x09], Placeholder n (placeholder_hint toLowerCase p), Text '',''] @
     template_params toLowerCase (n + 1) (q # ps)"

text \<open>
  The parameters of the other revision's template: a placeholder with the parameter's name
  for each, a comma and a space between them, all on one line.
\<close>

fun template_params_other :: "nat \<Rightarrow> FiveMNativeParam list \<Rightarrow> snippet_part list" where
  "template_params_other n [] = []"
| "template_params_other n [p] = [Placeholder n (param_name p)]"
| "template_params_other n (p # q # ps) =
     [Placeholder n (param_name p), Text '', ''] @ template_params_other (n + 1) (q # ps)"

fun is_placeholder :: "snippet_part \<Rightarrow> bool" where
  "is_placeholder (Placeholder n s) = True"
| "is_placeholder (Template s) = False"
| "is_placeholder (Text s) = False"

section \<open>An example catalog\<close>

text \<open>
  Two modules: a native with a parameter and a single result, an entry without a name, an
  entry whose name is empty, and a native with two results and nothing else.
\<close>

definition example_catalog :: RawCatalog where
  "example_catalog =
     [(''CFX'',
        [(''0x1'', \<lparr> def_name = Some ''TRIGGER_MUSIC_EVENT'',
                     def_params = Some [\<lparr> param_name = ''eventName'', param_type = ''char*'' \<rparr>],
                     def_results = Single ''BOOL'',
                     def_description = Some ''Starts a music event.'' \<rparr>),
         (''0x2'', \<lparr> def_name = None, def_params = None, def_results = Undefined,
                     def_description = Some ''unnamed'' \<rparr>)]),
      (''PLAYER'',
        [(''0x3'', \<lparr> def_name = Some '''', def_params = None, def_results = Undefined,
                     def_description = None \<rparr>),
         (''0x4'', \<lparr> def_name = Some ''getPed'', def_params = None,
                     def_results = Multiple [''Ped'', ''int''],
                     def_description = None \<rparr>)])]"

text \<open>Two modules, with one native in each; the two names differ only in case.\<close>

definition two_module_catalog :: RawCatalog where
  "two_module_catalog =
     [(''CFX'',
        [(''0xA'', \<lparr> def_name = Some ''Foo'', def_params = None, def_results = Undefined,
                     def_description = None \<rparr>)]),
      (''PLAYER'',
        [(''0xB'', \<lparr> def_name = Some ''FOO'', def_params = None, def_results = Undefined,
                     def_description = None \<rparr>)])]"

text \<open>
  A catalog whose module keys are array indices, the greater one first in the document,
  with one native in each module; the two names differ only in case.
\<close>

definition index_keyed_catalog :: RawCatalog where
  "index_keyed_catalog =
     [(''2'',
        [(''0xA'', \<lparr> def_name = Some ''Foo'', def_params = None, def_results = Undefined,
                     def_description = None \<rparr>)]),
      (''1'',
        [(''0xB'', \<lparr> def_name = Some ''FOO'', def_params = None, def_results = Undefined,
                     def_description = None \<rparr>)])]"

section \<open>Case conversion and the type mapping\<close>

lemma lower_upper_char: "lower_char (upper_char c) = lower_char c"
  unfolding lower_char_def upper_char_def is_upper_def is_lower_def
  by (auto simp: of_char_of)

lemma lower_lower_char: "lower_char (lower_char c) = lower_char c"
  unfolding lower_char_def is_upper_def
  by (auto simp: of_char_of)

lemma is_ascii_upper_char: "is_ascii c \<Longrightarrow> is_ascii (upper_char c)"
  unfolding upper_char_def is_lower_def is_ascii_def
  by (auto simp: of_char_of)

lemma is_ascii_lower_char: "is_ascii c \<Longrightarrow> is_ascii (lower_char c)"
  unfolding lower_char_def is_upper_def is_ascii_def
  by (auto simp: of_char_of)

lemma ascii_case_lower:
  "ascii_case toUpperCase toLowerCase \<Longrightarrow> list_all is_ascii s \<Longrightarrow>
   toLowerCase s = ascii_toLowerCase s"
  by (simp add: ascii_case_def)

lemma ascii_case_upper:
  "ascii_case toUpperCase toLowerCase \<Longrightarrow> list_all is_ascii s \<Longrightarrow>
   toUpperCase s = ascii_toUpperCase s"
  by (simp add: ascii_case_def)

lemma ascii_case_ascii: "ascii_case ascii_toUpperCase ascii_toLowerCase"
  by (simp add: ascii_case_def)

lemma list_all_ascii_upper: "list_all is_ascii s \<Longrightarrow> list_all is_ascii (ascii_toUpperCase s)"
  by (simp add: ascii_toUpperCase_def list_all_iff is_ascii_upper_char)

lemma list_all_ascii_lower: "list_all is_ascii s \<Longrightarrow> list_all is_ascii (ascii_toLowerCase s)"
  by (simp add: ascii_toLowerCase_def list_all_iff is_ascii_lower_char)

lemma ascii_lower_upper: "ascii_toLowerCase (ascii_toUpperCase s) = ascii_toLowerCase s"
  by (simp add: ascii_toLowerCase_def ascii_toUpperCase_def lower_upper_char)

lemma ascii_lower_lower: "ascii_toLowerCase (ascii_toLowerCase s) = ascii_toLowerCase s"
  by (simp add: ascii_toLowerCase_def lower_lower_char)

lemma mapType_cong:
  "toLowerCase t = toLowerCase u \<Longrightarrow> mapType toLowerCase t = mapType toLowerCase u"
  by (simp add: mapType_def Let_def)

lemma mapType_ascii:
  "ascii_case toUpperCase toLowerCase \<Longrightarrow> list_all is_ascii t \<Longrightarrow>
   mapType toLowerCase t = mapType ascii_toLowerCase t"
  by (simp add: mapType_def Let_def ascii_case_lower)

text \<open>
  C7. \<^verbatim>\<open>mapType\<close> is a function of its input's lower-case form, whatever the library's
  conversion does: it returns \<^verbatim>\<open>string\<close> for \<^verbatim>\<open>char*\<close>, \<^verbatim>\<open>number\<close> for
  \<^verbatim>\<open>float\<close> and \<^verbatim>\<open>int\<close>, \<^verbatim>\<open>boolean\<close> for \<^verbatim>\<open>bool\<close>, each matched against the
  whole input in lower case, and the input in lower case for anything else. Two inputs with
  the same lower-case form get the same result. With the conversion of ASCII strings as
  it is known, the four examples of the specification hold, and an ASCII input gets the
  same result in upper case and in lower case.
\<close>

theorem mapType_table:
  "mapType toLowerCase t =
     (if toLowerCase t = ''char*'' then ''string''
      else if toLowerCase t = ''float'' \<or> toLowerCase t = ''int'' then ''number''
      else if toLowerCase t = ''bool'' then ''boolean''
      else toLowerCase t)
   \<and> (toLowerCase t = toLowerCase u \<longrightarrow> mapType toLowerCase t = mapType toLowerCase u)
   \<and> (ascii_case toUpperCase toLowerCase \<longrightarrow>
        mapType toLowerCase ''char*'' = ''string''
        \<and> mapType toLowerCase ''FLOAT'' = ''number''
        \<and> mapType toLowerCase ''Bool'' = ''boolean''
        \<and> mapType toLowerCase ''Vector3'' = ''vector3''
        \<and> (list_all is_ascii t \<longrightarrow>
             mapType toLowerCase (ascii_toUpperCase t) = mapType toLowerCase t
             \<and> mapType toLowerCase (ascii_toLowerCase t) = mapType toLowerCase t))"
proof -
  have table: "mapType toLowerCase t =
     (if toLowerCase t = ''char*'' then ''string''
      else if toLowerCase t = ''float'' \<or> toLowerCase t = ''int'' then ''number''
      else if toLowerCase t = ''bool'' then ''boolean''
      else toLowerCase t)"
    by (simp add: mapType_def Let_def)
  have fold: "toLowerCase t = toLowerCase u \<longrightarrow> mapType toLowerCase t = mapType toLowerCase u"
    by (rule impI) (rule mapType_cong)
  have ascii: "mapType toLowerCase ''char*'' = ''string''
        \<and> mapType toLowerCase ''FLOAT'' = ''number''
        \<and> mapType toLowerCase ''Bool'' = ''boolean''
        \<and> mapType toLowerCase ''Vector3'' = ''vector3''
        \<and> (list_all is_ascii t \<longrightarrow>
             mapType toLowerCase (ascii_toUpperCase t) = mapType toLowerCase t
             \<and> mapType toLowerCase (ascii_toLowerCase t) = mapType toLowerCase t)"
    if a: "ascii_case toUpperCase toLowerCase"
  proof -
    have e1: "mapType ascii_toLowerCase ''char*'' = ''string''" by code_simp
    have e2: "mapType ascii_toLowerCase ''FLOAT'' = ''number''" by code_simp
    have e3: "mapType ascii_toLowerCase ''Bool'' = ''boolean''" by code_simp
    have e4: "mapType ascii_toLowerCase ''Vector3'' = ''vector3''" by code_simp
    have i1: "list_all is_ascii ''char*''" by (simp add: is_ascii_def)
    have i2: "list_all is_ascii ''FLOAT''" by (simp add: is_ascii_def)
    have i3: "list_all is_ascii ''Bool''" by (simp add: is_ascii_def)
    have i4: "list_all is_ascii ''Vector3''" by (simp add: is_ascii_def)
    have c: "mapType toLowerCase (ascii_toUpperCase t) = mapType toLowerCase t
             \<and> mapType toLowerCase (ascii_toLowerCase t) = mapType toLowerCase t"
      if t: "list_all is_ascii t"
    proof -
      have "toLowerCase (ascii_toUpperCase t) = ascii_toLowerCase (ascii_toUpperCase t)"
        by (rule ascii_case_lower [OF a list_all_ascii_upper [OF t]])
      also have "\<dots> = ascii_toLowerCase t" by (rule ascii_lower_upper)
      also have "\<dots> = toLowerCase t" by (rule ascii_case_lower [OF a t, symmetric])
      finally have u: "mapType toLowerCase (ascii_toUpperCase t) = mapType toLowerCase t"
        by (rule mapType_cong)
      have "toLowerCase (ascii_toLowerCase t) = ascii_toLowerCase (ascii_toLowerCase t)"
        by (rule ascii_case_lower [OF a list_all_ascii_lower [OF t]])
      also have "\<dots> = ascii_toLowerCase t" by (rule ascii_lower_lower)
      also have "\<dots> = toLowerCase t" by (rule ascii_case_lower [OF a t, symmetric])
      finally have l: "mapType toLowerCase (ascii_toLowerCase t) = mapType toLowerCase t"
        by (rule mapType_cong)
      from u l show ?thesis by blast
    qed
    have x1: "mapType toLowerCase ''char*'' = ''string''"
      by (simp only: mapType_ascii [OF a i1] e1)
    have x2: "mapType toLowerCase ''FLOAT'' = ''number''"
      by (simp only: mapType_ascii [OF a i2] e2)
    have x3: "mapType toLowerCase ''Bool'' = ''boolean''"
      by (simp only: mapType_ascii [OF a i3] e3)
    have x4: "mapType toLowerCase ''Vector3'' = ''vector3''"
      by (simp only: mapType_ascii [OF a i4] e4)
    from c have c': "list_all is_ascii t \<longrightarrow>
             mapType toLowerCase (ascii_toUpperCase t) = mapType toLowerCase t
             \<and> mapType toLowerCase (ascii_toLowerCase t) = mapType toLowerCase t"
      by (rule impI)
    show ?thesis
      by (rule conjI [OF x1 conjI [OF x2 conjI [OF x3 conjI [OF x4 c']]]])
  qed
  then have third: "ascii_case toUpperCase toLowerCase \<longrightarrow>
        mapType toLowerCase ''char*'' = ''string''
        \<and> mapType toLowerCase ''FLOAT'' = ''number''
        \<and> mapType toLowerCase ''Bool'' = ''boolean''
        \<and> mapType toLowerCase ''Vector3'' = ''vector3''
        \<and> (list_all is_ascii t \<longrightarrow>
             mapType toLowerCase (ascii_toUpperCase t) = mapType toLowerCase t
             \<and> mapType toLowerCase (ascii_toLowerCase t) = mapType toLowerCase t)"
    by (rule impI)
  show ?thesis
    by (rule conjI [OF table conjI [OF fold third]])
qed

text \<open>
  The conversions of ASCII strings themselves are an instance: \<^verbatim>\<open>INT\<close> is \<^verbatim>\<open>int\<close> in
  upper case and maps to \<^verbatim>\<open>number\<close> too.
\<close>

theorem mapType_table_witness:
  "ascii_case ascii_toUpperCase ascii_toLowerCase
   \<and> list_all is_ascii ''int''
   \<and> ascii_toUpperCase ''int'' = ''INT''
   \<and> ascii_toLowerCase ''INT'' = ascii_toLowerCase ''int''
   \<and> mapType ascii_toLowerCase ''INT'' = mapType ascii_toLowerCase ''int''
   \<and> mapType ascii_toLowerCase ''INT'' = ''number''
   \<and> mapType ascii_toLowerCase ''FLOAT'' = ''number''"
proof -
  note t = mapType_table [of ascii_toLowerCase "''int''" "''INT''" ascii_toUpperCase]
  have a: "ascii_case ascii_toUpperCase ascii_toLowerCase" by (rule ascii_case_ascii)
  have i: "list_all is_ascii ''int''" by (simp add: is_ascii_def)
  have u: "ascii_toUpperCase ''int'' = ''INT''" by code_simp
  have l: "ascii_toLowerCase ''INT'' = ascii_toLowerCase ''int''" by code_simp
  have v: "mapType ascii_toLowerCase ''int'' = ''number''" by code_simp
  note t3 = t [THEN conjunct2, THEN conjunct2, THEN mp, OF a]
  note f = t3 [THEN conjunct2, THEN conjunct1]
  note c0 = t3 [THEN conjunct2, THEN conjunct2, THEN conjunct2, THEN conjunct2, THEN mp, OF i,
    THEN conjunct1]
  from c0 have c: "mapType ascii_toLowerCase ''INT'' = mapType ascii_toLowerCase ''int''"
    by (simp only: u)
  from c v have n: "mapType ascii_toLowerCase ''INT'' = ''number''" by (rule trans)
  show ?thesis
    by (rule conjI [OF a conjI [OF i conjI [OF u conjI [OF l conjI [OF c conjI [OF n f]]]]]])
qed

section \<open>The return-type text\<close>

text \<open>
  A single result that is the empty string is not used as it is: the empty string is
  falsy, so \<^verbatim>\<open>native.results || "void"\<close> yields \<^verbatim>\<open>void\<close>.
\<close>

theorem returns_single_empty_counterexample:
  "returns (Single '''') = ''void'' \<and> returns (Single '''') \<noteq> ''''"
  by (simp add: returns_def)

text \<open>
  C5 (amended). The return-type text of \<^verbatim>\<open>src/extension.ts\<close> is the elements of the
  results joined with \<^verbatim>\<open>" | "\<close> when the results are a sequence, the results
  themselves when they are a single string that is not empty, and the literal
  \<^verbatim>\<open>void\<close> when the results are absent or the empty string.
\<close>

theorem returns_text:
  "returns (Multiple xs) = join xs '' | ''
   \<and> (s \<noteq> [] \<longrightarrow> returns (Single s) = s)
   \<and> returns (Single []) = ''void''
   \<and> returns Undefined = ''void''"
  by (simp add: returns_def)

text \<open>The three examples of the specification.\<close>

theorem returns_text_witness:
  "''BOOL'' \<noteq> [] \<and> returns (Single ''BOOL'') = ''BOOL''
   \<and> returns (Multiple [''Ped'', ''int'']) = ''Ped | int''
   \<and> returns Undefined = ''void''"
  using returns_text [of "[''Ped'', ''int'']" "''BOOL''"] by simp

text \<open>
  The other revision differs at the two edges: an empty sequence gives \<^verbatim>\<open>void\<close>
  there, and an empty single string is kept.
\<close>

lemma returns_other_text:
  "returns_other (Multiple []) = ''void''
   \<and> (xs \<noteq> [] \<longrightarrow> returns_other (Multiple xs) = join xs '' | '')
   \<and> returns_other (Single s) = s
   \<and> returns_other Undefined = ''void''"
  by (simp add: returns_other_def)

text \<open>
  C9. For results that are present but an empty sequence, the return-type text of
  \<^verbatim>\<open>src/extension.ts\<close> is the empty string, not \<^verbatim>\<open>void\<close>: a sequence is always
  joined. The default \<^verbatim>\<open>void\<close> is taken when the results are absent or the empty
  string; in every other case the text \<^verbatim>\<open>void\<close> can only be the data itself.
\<close>

theorem returns_empty_sequence:
  "returns (Multiple []) = ''''
   \<and> returns (Multiple []) \<noteq> ''void''
   \<and> returns (Multiple xs) = join xs '' | ''
   \<and> returns Undefined = ''void''
   \<and> returns (Single []) = ''void''
   \<and> (r \<noteq> Undefined \<and> r \<noteq> Single [] \<and> returns r = ''void'' \<longrightarrow>
        r = Single ''void'' \<or> (\<exists>ys. r = Multiple ys \<and> join ys '' | '' = ''void''))"
  by (cases r) (auto simp: returns_def)

text \<open>A single result named \<^verbatim>\<open>void\<close> is neither absent nor falsy.\<close>

theorem returns_empty_sequence_witness:
  "Single ''void'' \<noteq> Undefined \<and> Single ''void'' \<noteq> Single []
   \<and> returns (Single ''void'') = ''void''
   \<and> returns (Multiple []) = ''''"
  using returns_empty_sequence [of "[]" "Single ''void''"] by (simp add: returns_def)

section \<open>The definition provider and activation\<close>

lemma hash_suffix_drop: "hash_suffix h = (case h of None \<Rightarrow> [] | Some s \<Rightarrow> drop 2 s)"
  by (simp add: hash_suffix_def slice_def split: option.splits)

text \<open>
  C10. On a match, the definition provider opens the documentation address built from
  the record's hash without its first two characters, whatever they are, and from the
  empty string when the record has no hash. Without a match, or without a word under the
  cursor, it opens nothing. It returns \<^verbatim>\<open>undefined\<close> in every case.
\<close>

theorem provideDefinition_url:
  "(find_native toLowerCase natives word = Some m \<longrightarrow>
      opened (provideDefinition toLowerCase natives (Some word)) =
        [''https://docs.fivem.net/natives/?_0x'' @
           (case hash m of None \<Rightarrow> [] | Some h \<Rightarrow> drop 2 h)])
   \<and> (find_native toLowerCase natives word = None \<longrightarrow>
        opened (provideDefinition toLowerCase natives (Some word)) = [])
   \<and> opened (provideDefinition toLowerCase natives None) = []
   \<and> returned (provideDefinition toLowerCase natives w) = None"
  by (simp add: provideDefinition_def docUrl_def hash_suffix_drop split: option.splits)

text \<open>A hash that does not start with \<^verbatim>\<open>0x\<close> loses its first two characters all the same.\<close>

theorem provideDefinition_url_witness:
  "find_native ascii_toLowerCase
     [\<lparr> name = ''GetHashKey'', hash = Some ''zzD24D37CC'', params = Some [],
         results = Undefined, description = Some [], module = Some ''CFX'' \<rparr>]
     ''gethashkey'' =
   Some \<lparr> name = ''GetHashKey'', hash = Some ''zzD24D37CC'', params = Some [],
          results = Undefined, description = Some [], module = Some ''CFX'' \<rparr>
   \<and> opened (provideDefinition ascii_toLowerCase
       [\<lparr> name = ''GetHashKey'', hash = Some ''zzD24D37CC'', params = Some [],
           results = Undefined, description = Some [], module = Some ''CFX'' \<rparr>]
       (Some ''gethashkey'')) = [''https://docs.fivem.net/natives/?_0xD24D37CC'']"
proof -
  let ?n = "\<lparr> name = ''GetHashKey'', hash = Some ''zzD24D37CC'', params = Some [],
         results = Undefined, description = Some [], module = Some ''CFX'' \<rparr>"
  have l: "ascii_toLowerCase ''GetHashKey'' = ascii_toLowerCase ''gethashkey''" by code_simp
  have h: "find_native ascii_toLowerCase [?n] ''gethashkey'' = Some ?n"
    by (simp add: find_native_def l)
  from provideDefinition_url [of ascii_toLowerCase "[?n]" "''gethashkey''" ?n] h
  have "opened (provideDefinition ascii_toLowerCase [?n] (Some ''gethashkey'')) =
        [''https://docs.fivem.net/natives/?_0x'' @
           (case hash ?n of None \<Rightarrow> [] | Some h \<Rightarrow> drop 2 h)]"
    by blast
  with h show ?thesis by simp
qed

text \<open>
  \<^verbatim>\<open>activate\<close> of \<^verbatim>\<open>src/extension.ts\<close>: when the catalog file is missing, it shows a
  warning and registers the completion provider with an empty list of natives; when the
  file is there and \<^verbatim>\<open>JSON.parse\<close> throws, it shows an error message and registers the
  provider with an empty list as well. No error leaves it, whatever the file and the parser
  do.
\<close>

lemma activate_contains_load_failures:
  "activate JSON_parse None =
     Inr \<lparr> shown = [WarningMessage ''natives.json not found in the data folder.'',
                    InformationMessage ''FiveMDevKit is now active!''],
           subscriptions =
             [NativesCompletionProvider [], EventsCompletionProvider,
              Command ''fivemdevkit.helloWorld'', Command ''fivemdevkit.debugResource''] \<rparr>
   \<and> (JSON_parse rawData = Inl e \<longrightarrow>
        activate JSON_parse (Some (Inr rawData)) =
          Inr \<lparr> shown = [ErrorMessage ''Failed to parse natives.json'',
                         InformationMessage ''FiveMDevKit is now active!''],
                subscriptions =
                  [NativesCompletionProvider [], EventsCompletionProvider,
                   Command ''fivemdevkit.helloWorld'',
                   Command ''fivemdevkit.debugResource''] \<rparr>)
   \<and> (\<exists>a. activate JSON_parse nativesFile = Inr a)"
  by (simp add: activate_def read_and_parse_def split: option.splits sum.splits)

text \<open>
  \<^verbatim>\<open>activate\<close> of the other revision: a missing file gives a warning and empty lists
  there too.
\<close>

lemma activate_other_missing_file:
  "activate_other JSON_parse None =
     Inr \<lparr> shown =
             [WarningMessage
                (''FiveM natives.json not found. Please run '' @ [CHR 0x22] @
                 ''npm run fetch-natives'' @ [CHR 0x22] @
                 '' or place the file in the data folder.''),
              InformationMessage ''FiveMDevKit is now active!''],
           subscriptions =
             [NativesCompletionProvider [], DefinitionProvider [],
              Command ''fivemdevkit.helloWorld'', Command ''fivemdevkit.debugResource''] \<rparr>"
  by (simp add: activate_other_def)

text \<open>
  It has no \<^verbatim>\<open>try\<close> block, however: the error of the parser leaves \<^verbatim>\<open>activate\<close>, and
  nothing is registered.
\<close>

lemma activate_other_propagates:
  "JSON_parse rawData = Inl e \<Longrightarrow> activate_other JSON_parse (Some (Inr rawData)) = Inl e"
  by (simp add: activate_other_def read_and_parse_def)

text \<open>
  C3. A catalog file that is there but does not parse must give an error message and
  an empty catalog, and no exception may leave the load. On a file that holds an opening
  brace and a parser that throws a \<^verbatim>\<open>SyntaxError\<close>, \<^verbatim>\<open>activate\<close> of the other revision
  ends with that error; \<^verbatim>\<open>activate\<close> of \<^verbatim>\<open>src/extension.ts\<close> shows the error message
  and registers the provider with an empty list.
\<close>

theorem activate_other_parse_error:
  "activate_other (\<lambda>rawData. Inl SyntaxError) (Some (Inr ''{'')) = Inl SyntaxError
   \<and> activate (\<lambda>rawData. Inl SyntaxError) (Some (Inr ''{'')) =
       Inr \<lparr> shown = [ErrorMessage ''Failed to parse natives.json'',
                      InformationMessage ''FiveMDevKit is now active!''],
             subscriptions =
               [NativesCompletionProvider [], EventsCompletionProvider,
                Command ''fivemdevkit.helloWorld'',
                Command ''fivemdevkit.debugResource''] \<rparr>"
  by (simp add: activate_other_def activate_def read_and_parse_def)

section \<open>The display name\<close>

lemma split_nonempty: "split s d \<noteq> []"
  by (induction s) (auto split: list.splits)

lemma join_split: "join (split s d) [d] = s"
proof (induction s)
  case Nil
  then show ?case by simp
next
  case (Cons c cs)
  show ?case
  proof (cases "c = d")
    case True
    obtain x xs where x: "split cs d = x # xs"
      using split_nonempty [of cs d] by (cases "split cs d") auto
    with True Cons.IH show ?thesis by simp
  next
    case False
    obtain x xs where x: "split cs d = x # xs"
      using split_nonempty [of cs d] by (cases "split cs d") auto
    from Cons.IH x have "cs = join (x # xs) [d]" by simp
    moreover have "join ((c # x) # xs) [d] = c # join (x # xs) [d]"
      by (cases xs) auto
    ultimately show ?thesis using False x by simp
  qed
qed

lemma split_no_separator: "chunk \<in> set (split s d) \<Longrightarrow> d \<notin> set chunk"
proof (induction s arbitrary: chunk)
  case Nil
  then show ?case by simp
next
  case (Cons c cs)
  obtain x xs where x: "split cs d = x # xs"
    using split_nonempty [of cs d] by (cases "split cs d") auto
  show ?case
  proof (cases "c = d")
    case True
    with Cons.prems have "chunk = [] \<or> chunk \<in> set (split cs d)" by simp
    with Cons.IH show ?thesis by auto
  next
    case False
    with Cons.prems x have "chunk = c # x \<or> chunk \<in> set xs" by simp
    moreover have "d \<notin> set x" using Cons.IH [of x] x by simp
    moreover have "chunk \<in> set xs \<Longrightarrow> d \<notin> set chunk" using Cons.IH [of chunk] x by simp
    ultimately show ?thesis using False by auto
  qed
qed

lemma split_chars: "chunk \<in> set (split s d) \<Longrightarrow> set chunk \<subseteq> set s"
proof (induction s arbitrary: chunk)
  case Nil
  then show ?case by simp
next
  case (Cons c cs)
  obtain x xs where x: "split cs d = x # xs"
    using split_nonempty [of cs d] by (cases "split cs d") auto
  show ?case
  proof (cases "c = d")
    case True
    with Cons.prems have "chunk = [] \<or> chunk \<in> set (split cs d)" by simp
    with Cons.IH show ?thesis by auto
  next
    case False
    with Cons.prems x have "chunk = c # x \<or> chunk \<in> set xs" by simp
    moreover have "set x \<subseteq> set cs" using Cons.IH [of x] x by simp
    moreover have "chunk \<in> set xs \<Longrightarrow> set chunk \<subseteq> set cs" using Cons.IH [of chunk] x by simp
    ultimately show ?thesis by auto
  qed
qed

lemma join_no_separator: "join xs [] = concat xs"
  by (induction xs "[] :: string" rule: join.induct) auto

lemma charAt_take: "charAt s 0 = take 1 s"
  by (cases s) (simp_all add: charAt_def)

lemma capitalize_fun:
  "(\<lambda>chunk. toUpperCase (charAt chunk 0) @ toLowerCase (slice chunk 1)) =
   capitalize toUpperCase toLowerCase"
  by (rule ext) (simp only: capitalize_def charAt_take slice_def)

lemma capitalize_first_eq:
  "toUpperCase (charAt s 0) @ slice s 1 = capitalize_first toUpperCase s"
  by (simp only: capitalize_first_def charAt_take slice_def)

lemma capitalize_ascii:
  assumes "ascii_case toUpperCase toLowerCase" and "list_all is_ascii chunk"
  shows "capitalize toUpperCase toLowerCase chunk = capitalize_chunk chunk"
proof (cases chunk)
  case Nil
  have "list_all is_ascii ([] :: string)" by simp
  with assms(1) have "toUpperCase [] = ascii_toUpperCase []" "toLowerCase [] = ascii_toLowerCase []"
    by (simp_all add: ascii_case_def)
  with Nil show ?thesis
    by (simp add: capitalize_def ascii_toUpperCase_def ascii_toLowerCase_def)
next
  case (Cons c cs)
  with assms(2) have "list_all is_ascii [c]" "list_all is_ascii cs" by simp_all
  with assms(1) have "toUpperCase [c] = ascii_toUpperCase [c]" "toLowerCase cs = ascii_toLowerCase cs"
    by (simp_all add: ascii_case_def)
  with Cons show ?thesis
    by (simp add: capitalize_def ascii_toUpperCase_def ascii_toLowerCase_def)
qed

lemma capitalize_first_ascii:
  assumes "ascii_case toUpperCase toLowerCase" and "list_all is_ascii s"
  shows "capitalize_first toUpperCase s = upper_first s"
proof (cases s)
  case Nil
  have "list_all is_ascii ([] :: string)" by simp
  with assms(1) have "toUpperCase [] = ascii_toUpperCase []"
    by (simp add: ascii_case_def)
  with Nil show ?thesis
    by (simp add: capitalize_first_def ascii_toUpperCase_def)
next
  case (Cons c cs)
  with assms(2) have "list_all is_ascii [c]" by simp
  with assms(1) have "toUpperCase [c] = ascii_toUpperCase [c]"
    by (simp add: ascii_case_def)
  with Cons show ?thesis
    by (simp add: capitalize_first_def ascii_toUpperCase_def)
qed

lemma upper_snake_char_ascii: "upper_snake_char c \<Longrightarrow> is_ascii c"
  by (auto simp: upper_snake_char_def is_upper_def is_digit_def is_ascii_def)

lemma test_upper_snake_iff:
  "test_upper_snake s \<longleftrightarrow>
     s \<noteq> [] \<and> (\<forall>c \<in> set s. is_upper c \<or> is_digit c \<or> c = CHR ''_'')"
  by (simp add: test_upper_snake_def upper_snake_char_def list_all_iff)

lemma toPascalCase_match:
  "test_upper_snake s \<Longrightarrow>
   toPascalCase toUpperCase toLowerCase s =
     concat (map (capitalize toUpperCase toLowerCase) (split s CHR ''_''))"
  unfolding toPascalCase_def capitalize_fun join_no_separator by simp

lemma toPascalCase_other:
  "\<not> test_upper_snake s \<Longrightarrow>
   toPascalCase toUpperCase toLowerCase s = capitalize_first toUpperCase s"
  unfolding toPascalCase_def capitalize_first_eq by simp

lemma toPascalCase_match_ascii:
  assumes "ascii_case toUpperCase toLowerCase" and "test_upper_snake s"
  shows "toPascalCase toUpperCase toLowerCase s =
     concat (map capitalize_chunk (split s CHR ''_''))"
proof -
  have eq: "map (capitalize toUpperCase toLowerCase) (split s CHR ''_'') =
        map capitalize_chunk (split s CHR ''_'')"
  proof (rule map_cong)
    fix chunk assume "chunk \<in> set (split s CHR ''_'')"
    then have "set chunk \<subseteq> set s" by (rule split_chars)
    moreover from assms(2) have "\<forall>c \<in> set s. is_ascii c"
      by (auto simp: test_upper_snake_def list_all_iff upper_snake_char_ascii)
    ultimately have "list_all is_ascii chunk" by (auto simp: list_all_iff)
    with assms(1) show "capitalize toUpperCase toLowerCase chunk = capitalize_chunk chunk"
      by (rule capitalize_ascii)
  qed simp
  show ?thesis
    by (simp only: toPascalCase_match [OF assms(2)] eq)
qed

lemma toPascalCase_other_ascii:
  assumes "ascii_case toUpperCase toLowerCase" and "\<not> test_upper_snake s"
    and "list_all is_ascii s"
  shows "toPascalCase toUpperCase toLowerCase s = upper_first s"
  using toPascalCase_other [OF assms(2)] capitalize_first_ascii [OF assms(1,3)] by simp

lemma toPascalCase_examples:
  assumes a: "ascii_case toUpperCase toLowerCase"
  shows "toPascalCase toUpperCase toLowerCase ''TRIGGER_MUSIC_EVENT'' = ''TriggerMusicEvent''"
    and "toPascalCase toUpperCase toLowerCase ''triggerEvent'' = ''TriggerEvent''"
    and "toPascalCase toUpperCase toLowerCase ''A_B'' = ''AB''"
proof -
  have m1: "test_upper_snake ''TRIGGER_MUSIC_EVENT''" by code_simp
  have v1: "concat (map capitalize_chunk (split ''TRIGGER_MUSIC_EVENT'' CHR ''_'')) =
      ''TriggerMusicEvent''" by code_simp
  from toPascalCase_match_ascii [OF a m1] v1
  show "toPascalCase toUpperCase toLowerCase ''TRIGGER_MUSIC_EVENT'' = ''TriggerMusicEvent''"
    by (rule trans)
  have m2: "\<not> test_upper_snake ''triggerEvent''" by code_simp
  have i2: "list_all is_ascii ''triggerEvent''" by (simp add: is_ascii_def)
  have v2: "upper_first ''triggerEvent'' = ''TriggerEvent''" by code_simp
  from toPascalCase_other_ascii [OF a m2 i2] v2
  show "toPascalCase toUpperCase toLowerCase ''triggerEvent'' = ''TriggerEvent''"
    by (rule trans)
  have m3: "test_upper_snake ''A_B''" by code_simp
  have v3: "concat (map capitalize_chunk (split ''A_B'' CHR ''_'')) = ''AB''" by code_simp
  from toPascalCase_match_ascii [OF a m3] v3
  show "toPascalCase toUpperCase toLowerCase ''A_B'' = ''AB''"
    by (rule trans)
qed

text \<open>
  C4. \<^verbatim>\<open>toPascalCase\<close>, the display name of the specification, is a total function.
  On a string that is not empty and holds only upper-case letters, digits and underscores,
  the result is the concatenation of the chunks of the string, each with its first
  character converted to upper case and its rest converted to lower case; the chunks are
  the pieces between the underscores: joined with underscores they give the string back,
  and none of them holds an underscore. On every other string the result is the first
  character converted to upper case, followed by the rest as it was. This holds whatever
  the library's conversions do. With the conversion of ASCII strings as it is known, the
  chunks and the ASCII strings are converted character by character, and the three
  examples of the specification hold.
\<close>

theorem toPascalCase_rule:
  "(s \<noteq> [] \<and> (\<forall>c \<in> set s. is_upper c \<or> is_digit c \<or> c = CHR ''_'') \<longrightarrow>
      toPascalCase toUpperCase toLowerCase s =
        concat (map (capitalize toUpperCase toLowerCase) (split s CHR ''_''))
      \<and> join (split s CHR ''_'') ''_'' = s
      \<and> (\<forall>chunk \<in> set (split s CHR ''_''). CHR ''_'' \<notin> set chunk)
      \<and> (ascii_case toUpperCase toLowerCase \<longrightarrow>
           toPascalCase toUpperCase toLowerCase s =
             concat (map capitalize_chunk (split s CHR ''_''))))
   \<and> (\<not> (s \<noteq> [] \<and> (\<forall>c \<in> set s. is_upper c \<or> is_digit c \<or> c = CHR ''_'')) \<longrightarrow>
        toPascalCase toUpperCase toLowerCase s = capitalize_first toUpperCase s
        \<and> (ascii_case toUpperCase toLowerCase \<and> list_all is_ascii s \<longrightarrow>
             toPascalCase toUpperCase toLowerCase s = upper_first s))
   \<and> (ascii_case toUpperCase toLowerCase \<longrightarrow>
        toPascalCase toUpperCase toLowerCase ''TRIGGER_MUSIC_EVENT'' = ''TriggerMusicEvent''
        \<and> toPascalCase toUpperCase toLowerCase ''triggerEvent'' = ''TriggerEvent''
        \<and> toPascalCase toUpperCase toLowerCase ''A_B'' = ''AB'')"
proof -
  have j: "join (split s CHR ''_'') ''_'' = s"
    by (rule join_split)
  have c: "\<forall>chunk \<in> set (split s CHR ''_''). CHR ''_'' \<notin> set chunk"
    using split_no_separator by blast
  have first: "test_upper_snake s \<longrightarrow>
      toPascalCase toUpperCase toLowerCase s =
        concat (map (capitalize toUpperCase toLowerCase) (split s CHR ''_''))
      \<and> join (split s CHR ''_'') ''_'' = s
      \<and> (\<forall>chunk \<in> set (split s CHR ''_''). CHR ''_'' \<notin> set chunk)
      \<and> (ascii_case toUpperCase toLowerCase \<longrightarrow>
           toPascalCase toUpperCase toLowerCase s =
             concat (map capitalize_chunk (split s CHR ''_'')))"
    using toPascalCase_match toPascalCase_match_ascii j c by blast
  have second: "\<not> test_upper_snake s \<longrightarrow>
        toPascalCase toUpperCase toLowerCase s = capitalize_first toUpperCase s
        \<and> (ascii_case toUpperCase toLowerCase \<and> list_all is_ascii s \<longrightarrow>
             toPascalCase toUpperCase toLowerCase s = upper_first s)"
    using toPascalCase_other toPascalCase_other_ascii by blast
  have third: "ascii_case toUpperCase toLowerCase \<longrightarrow>
        toPascalCase toUpperCase toLowerCase ''TRIGGER_MUSIC_EVENT'' = ''TriggerMusicEvent''
        \<and> toPascalCase toUpperCase toLowerCase ''triggerEvent'' = ''TriggerEvent''
        \<and> toPascalCase toUpperCase toLowerCase ''A_B'' = ''AB''"
    using toPascalCase_examples by blast
  from first second third show ?thesis
    unfolding test_upper_snake_iff by (rule conjI [OF _ conjI])
qed

text \<open>
  The conversions of ASCII strings themselves are an instance. One string for each branch;
  a chunk of digits stays as it is.
\<close>

theorem toPascalCase_rule_witness:
  "ascii_case ascii_toUpperCase ascii_toLowerCase
   \<and> ''GET_PED_2'' \<noteq> []
   \<and> list_all (\<lambda>c. is_upper c \<or> is_digit c \<or> c = CHR ''_'') ''GET_PED_2''
   \<and> toPascalCase ascii_toUpperCase ascii_toLowerCase ''GET_PED_2'' = ''GetPed2''
   \<and> \<not> (''get_Ped'' \<noteq> [] \<and> (\<forall>c \<in> set ''get_Ped''. is_upper c \<or> is_digit c \<or> c = CHR ''_''))
   \<and> list_all is_ascii ''get_Ped''
   \<and> toPascalCase ascii_toUpperCase ascii_toLowerCase ''get_Ped'' = ''Get_Ped''
   \<and> toPascalCase ascii_toUpperCase ascii_toLowerCase ''A_B'' = ''AB''"
proof -
  note r1 = toPascalCase_rule [of "''GET_PED_2''" ascii_toUpperCase ascii_toLowerCase]
  note r2 = toPascalCase_rule [of "''get_Ped''" ascii_toUpperCase ascii_toLowerCase]
  have a: "ascii_case ascii_toUpperCase ascii_toLowerCase" by (rule ascii_case_ascii)
  have h1: "''GET_PED_2'' \<noteq> [] \<and> (\<forall>c \<in> set ''GET_PED_2''. is_upper c \<or> is_digit c \<or> c = CHR ''_'')"
    by (simp add: is_upper_def is_digit_def)
  have h2: "\<not> (''get_Ped'' \<noteq> [] \<and> (\<forall>c \<in> set ''get_Ped''. is_upper c \<or> is_digit c \<or> c = CHR ''_''))"
    by (simp add: is_upper_def is_digit_def)
  have i2: "list_all is_ascii ''get_Ped''" by (simp add: is_ascii_def)
  have cc: "concat (map capitalize_chunk (split ''GET_PED_2'' CHR ''_'')) = ''GetPed2''"
    by code_simp
  have uf: "upper_first ''get_Ped'' = ''Get_Ped''" by code_simp
  note m = r1 [THEN conjunct1, THEN mp, OF h1]
  note m4 = m [THEN conjunct2, THEN conjunct2, THEN conjunct2, THEN mp, OF a]
  from m4 cc have v1: "toPascalCase ascii_toUpperCase ascii_toLowerCase ''GET_PED_2'' = ''GetPed2''"
    by (rule trans)
  note o = r2 [THEN conjunct2, THEN conjunct1, THEN mp, OF h2]
  note o2 = o [THEN conjunct2, THEN mp, OF conjI [OF a i2]]
  from o2 uf have v2: "toPascalCase ascii_toUpperCase ascii_toLowerCase ''get_Ped'' = ''Get_Ped''"
    by (rule trans)
  note e = r1 [THEN conjunct2, THEN conjunct2, THEN mp, OF a]
  note v3 = e [THEN conjunct2, THEN conjunct2]
  from h1 have h3: "list_all (\<lambda>c. is_upper c \<or> is_digit c \<or> c = CHR ''_'') ''GET_PED_2''"
    unfolding list_all_iff by blast
  from h1 have h0: "''GET_PED_2'' \<noteq> []" by blast
  show ?thesis
    by (rule conjI [OF a conjI [OF h0 conjI [OF h3 conjI [OF v1 conjI [OF h2 conjI [OF i2
          conjI [OF v2 v3]]]]]]])
qed

section \<open>The insert template\<close>

lemma snippet_loop_template:
  "i \<le> length ps \<Longrightarrow>
   snippet_loop toLowerCase ps i snippet =
     \<lparr> parts = parts snippet @ template_params toLowerCase (tabstop snippet) (drop i ps),
       tabstop = tabstop snippet + (length ps - i) \<rparr>"
proof (induction "length ps - i" arbitrary: i snippet)
  case 0
  then have "i = length ps" by simp
  then show ?case
    by (subst snippet_loop.simps) simp
next
  case (Suc k)
  then have lt: "i < length ps" by simp
  then have d: "drop i ps = ps ! i # drop (Suc i) ps"
    by (simp add: Cons_nth_drop_Suc)
  from Suc have k: "k = length ps - Suc i" and le: "Suc i \<le> length ps" by simp_all
  show ?case
  proof (cases "i < length ps - 1")
    case True
    then have "drop (Suc i) ps \<noteq> []" by simp
    then obtain q qs where q: "drop (Suc i) ps = q # qs"
      by (cases "drop (Suc i) ps") auto
    from Suc.hyps(1) [OF k le] True lt show ?thesis
      by (subst snippet_loop.simps)
         (simp add: d q Let_def appendText_def appendPlaceholder_def placeholder_hint_def)
  next
    case False
    with lt have e: "drop (Suc i) ps = []" by simp
    from Suc.hyps(1) [OF k le] False lt show ?thesis
      by (subst snippet_loop.simps)
         (simp add: d e Let_def appendText_def appendPlaceholder_def placeholder_hint_def)
  qed
qed

lemma snippet_loop_other_template:
  "i \<le> length ps \<Longrightarrow>
   snippet_loop_other ps i snippet =
     \<lparr> parts = parts snippet @ template_params_other (tabstop snippet) (drop i ps),
       tabstop = tabstop snippet + (length ps - i) \<rparr>"
proof (induction "length ps - i" arbitrary: i snippet)
  case 0
  then have "i = length ps" by simp
  then show ?case
    by (subst snippet_loop_other.simps) simp
next
  case (Suc k)
  then have lt: "i < length ps" by simp
  then have d: "drop i ps = ps ! i # drop (Suc i) ps"
    by (simp add: Cons_nth_drop_Suc)
  from Suc have k: "k = length ps - Suc i" and le: "Suc i \<le> length ps" by simp_all
  show ?case
  proof (cases "i < length ps - 1")
    case True
    then have "drop (Suc i) ps \<noteq> []" by simp
    then obtain q qs where q: "drop (Suc i) ps = q # qs"
      by (cases "drop (Suc i) ps") auto
    from Suc.hyps(1) [OF k le] True lt show ?thesis
      by (subst snippet_loop_other.simps)
         (simp add: d q Let_def appendText_def appendPlaceholder_def)
  next
    case False
    with lt have e: "drop (Suc i) ps = []" by simp
    from Suc.hyps(1) [OF k le] False lt show ?thesis
      by (subst snippet_loop_other.simps)
         (simp add: d e Let_def appendText_def appendPlaceholder_def)
  qed
qed

lemma build_snippet_parts:
  "parts (build_snippet toLowerCase funcName ps) =
     Template (funcName @ ''('') #
     (case ps of
        None \<Rightarrow> [Text '')'']
      | Some ps \<Rightarrow>
          if ps = [] then [Text '')'']
          else template_params toLowerCase 1 ps @ [Text [CHR 0x0A, CHR '')'']]) @
     [Text '';'']"
  by (simp add: build_snippet_def Let_def new_SnippetString_def appendText_def
        snippet_loop_template split: option.splits)

lemma template_params_placeholders:
  "filter is_placeholder (template_params toLowerCase n ps) =
     map (\<lambda>(k, p). Placeholder k (placeholder_hint toLowerCase p)) (zip [n ..< n + length ps] ps)"
proof (induction toLowerCase n ps rule: template_params.induct)
  case (1 toLowerCase n)
  then show ?case by simp
next
  case (2 toLowerCase n p)
  then show ?case by (simp add: upt_rec)
next
  case (3 toLowerCase n p q ps)
  have "[n ..< n + length (p # q # ps)] = n # [n + 1 ..< (n + 1) + length (q # ps)]"
    by (simp add: upt_rec)
  with 3 show ?case by simp
qed

text \<open>
  The other revision sets an insert text only for a record with parameters: the name,
  an opening parenthesis, the names of the parameters as placeholders with a comma and a
  space between them, and the closing parenthesis.
\<close>

lemma insertText_other:
  "insertText (completion_item_other native) =
     (case params native of
        None \<Rightarrow> None
      | Some ps \<Rightarrow>
          if ps = [] then None
          else Some \<lparr> parts = Template (name native @ ''('') # template_params_other 1 ps @
                                 [Text '')''],
                      tabstop = 1 + length ps \<rparr>)"
  by (simp add: completion_item_other_def new_SnippetString_def appendText_def
        snippet_loop_other_template split: option.splits)

text \<open>
  In the other revision the label of \<^verbatim>\<open>TRIGGER_MUSIC_EVENT\<close> is the name itself, not the
  display name; the template is on one line, without types and without a semicolon; and a
  record without parameters has no template.
\<close>

theorem insert_template_other_counterexample:
  "label (completion_item_other
       \<lparr> name = ''TRIGGER_MUSIC_EVENT'', hash = Some ''0x1'',
         params = Some [\<lparr> param_name = ''eventName'', param_type = ''char*'' \<rparr>,
                        \<lparr> param_name = ''flag'', param_type = ''BOOL'' \<rparr>],
         results = Single ''BOOL'', description = Some ''Starts a music event.'',
         module = Some ''CFX'' \<rparr>) = ''TRIGGER_MUSIC_EVENT''
   \<and> toPascalCase ascii_toUpperCase ascii_toLowerCase ''TRIGGER_MUSIC_EVENT'' =
       ''TriggerMusicEvent''
   \<and> insertText (completion_item_other
       \<lparr> name = ''TRIGGER_MUSIC_EVENT'', hash = Some ''0x1'',
         params = Some [\<lparr> param_name = ''eventName'', param_type = ''char*'' \<rparr>,
                        \<lparr> param_name = ''flag'', param_type = ''BOOL'' \<rparr>],
         results = Single ''BOOL'', description = Some ''Starts a music event.'',
         module = Some ''CFX'' \<rparr>) =
     Some \<lparr> parts = [Template ''TRIGGER_MUSIC_EVENT('', Placeholder 1 ''eventName'',
                      Text '', '', Placeholder 2 ''flag'', Text '')''],
            tabstop = 3 \<rparr>
   \<and> insertText (completion_item_other
       \<lparr> name = ''getTime'', hash = Some ''0x2'', params = Some [],
         results = Undefined, description = Some [], module = Some ''CFX'' \<rparr>) = None"
proof -
  have n: "toPascalCase ascii_toUpperCase ascii_toLowerCase ''TRIGGER_MUSIC_EVENT'' =
       ''TriggerMusicEvent''" by code_simp
  show ?thesis
    by (simp add: n insertText_other) (simp add: completion_item_other_def)
qed

text \<open>
  C6 (amended). In \<^verbatim>\<open>src/extension.ts\<close>, the label of a completion item is the display
  name of the record. Its insert template starts with the display name and an opening
  parenthesis. Without parameters the parenthesis is closed at once. With parameters, each
  parameter follows on a line of its own, as a placeholder that holds the parameter's
  name, a colon and its mapped type, with a comma after each placeholder but the last; a
  line break and the closing parenthesis come next. A semicolon ends the template in both
  cases. The placeholders are numbered from 1 in the order of the parameters, one for each
  parameter. In the other revision, the label is the name of the record, and a template is
  set only when the record has parameters: the name, an opening parenthesis, one
  placeholder for each parameter, holding its name, with a comma and a space between the
  placeholders, and the closing parenthesis.
\<close>

theorem insert_template:
  "label (completion_item toUpperCase toLowerCase native) =
     toPascalCase toUpperCase toLowerCase (name native)
   \<and> (\<exists>snippet. insertText (completion_item toUpperCase toLowerCase native) = Some snippet
        \<and> parts snippet =
            Template (toPascalCase toUpperCase toLowerCase (name native) @ ''('') #
            (case params native of
               None \<Rightarrow> [Text '')'']
             | Some ps \<Rightarrow>
                 if ps = [] then [Text '')'']
                 else template_params toLowerCase 1 ps @ [Text [CHR 0x0A, CHR '')'']]) @
            [Text '';'']
        \<and> (\<forall>ps. params native = Some ps \<longrightarrow>
             filter is_placeholder (parts snippet) =
               map (\<lambda>(k, p). Placeholder k
                      (param_name p @ '': '' @ mapType toLowerCase (param_type p)))
                   (zip [1 ..< 1 + length ps] ps)))
   \<and> label (completion_item_other native) = name native
   \<and> insertText (completion_item_other native) =
       (case params native of
          None \<Rightarrow> None
        | Some ps \<Rightarrow>
            if ps = [] then None
            else Some \<lparr> parts = Template (name native @ ''('') # template_params_other 1 ps @
                                   [Text '')''],
                        tabstop = 1 + length ps \<rparr>)"
proof -
  let ?snippet = "build_snippet toLowerCase (toPascalCase toUpperCase toLowerCase (name native))
      (params native)"
  have l: "label (completion_item toUpperCase toLowerCase native) =
     toPascalCase toUpperCase toLowerCase (name native)"
    by (simp add: completion_item_def Let_def)
  have i: "insertText (completion_item toUpperCase toLowerCase native) = Some ?snippet"
    by (simp add: completion_item_def Let_def)
  have p: "parts ?snippet =
       Template (toPascalCase toUpperCase toLowerCase (name native) @ ''('') #
       (case params native of
          None \<Rightarrow> [Text '')'']
        | Some ps \<Rightarrow>
            if ps = [] then [Text '')'']
            else template_params toLowerCase 1 ps @ [Text [CHR 0x0A, CHR '')'']]) @
       [Text '';'']"
    by (rule build_snippet_parts)
  have f: "\<forall>ps. params native = Some ps \<longrightarrow>
        filter is_placeholder (parts ?snippet) =
          map (\<lambda>(k, p). Placeholder k
                 (param_name p @ '': '' @ mapType toLowerCase (param_type p)))
              (zip [1 ..< 1 + length ps] ps)"
  proof (intro allI impI)
    fix ps assume ps: "params native = Some ps"
    have "filter is_placeholder (parts ?snippet) =
          filter is_placeholder (template_params toLowerCase 1 ps)"
      using ps by (cases ps) (simp_all add: build_snippet_parts)
    also have "\<dots> = map (\<lambda>(k, p). Placeholder k (placeholder_hint toLowerCase p))
        (zip [1 ..< 1 + length ps] ps)"
      by (rule template_params_placeholders)
    finally show "filter is_placeholder (parts ?snippet) =
          map (\<lambda>(k, p). Placeholder k
                 (param_name p @ '': '' @ mapType toLowerCase (param_type p)))
              (zip [1 ..< 1 + length ps] ps)"
      by (simp add: placeholder_hint_def)
  qed
  from i p f have e: "\<exists>snippet.
        insertText (completion_item toUpperCase toLowerCase native) = Some snippet
        \<and> parts snippet =
            Template (toPascalCase toUpperCase toLowerCase (name native) @ ''('') #
            (case params native of
               None \<Rightarrow> [Text '')'']
             | Some ps \<Rightarrow>
                 if ps = [] then [Text '')'']
                 else template_params toLowerCase 1 ps @ [Text [CHR 0x0A, CHR '')'']]) @
            [Text '';'']
        \<and> (\<forall>ps. params native = Some ps \<longrightarrow>
             filter is_placeholder (parts snippet) =
               map (\<lambda>(k, p). Placeholder k
                      (param_name p @ '': '' @ mapType toLowerCase (param_type p)))
                   (zip [1 ..< 1 + length ps] ps))"
    by blast
  have lo: "label (completion_item_other native) = name native"
    by (simp add: completion_item_other_def)
  show ?thesis
    by (rule conjI [OF l conjI [OF e conjI [OF lo insertText_other]]])
qed

text \<open>A native with two parameters in both revisions, and one with none.\<close>

theorem insert_template_witness:
  "params \<lparr> name = ''TRIGGER_MUSIC_EVENT'', hash = Some ''0x1'',
            params = Some [\<lparr> param_name = ''eventName'', param_type = ''char*'' \<rparr>,
                           \<lparr> param_name = ''flag'', param_type = ''BOOL'' \<rparr>],
            results = Single ''BOOL'', description = Some ''Starts a music event.'',
            module = Some ''CFX'' \<rparr> =
     Some [\<lparr> param_name = ''eventName'', param_type = ''char*'' \<rparr>,
           \<lparr> param_name = ''flag'', param_type = ''BOOL'' \<rparr>]
   \<and> map_option parts (insertText (completion_item ascii_toUpperCase ascii_toLowerCase
       \<lparr> name = ''TRIGGER_MUSIC_EVENT'', hash = Some ''0x1'',
         params = Some [\<lparr> param_name = ''eventName'', param_type = ''char*'' \<rparr>,
                        \<lparr> param_name = ''flag'', param_type = ''BOOL'' \<rparr>],
         results = Single ''BOOL'', description = Some ''Starts a music event.'',
         module = Some ''CFX'' \<rparr>)) =
     Some [Template ''TriggerMusicEvent('',
      Text [CHR 0x0A, CHR 0x09], Placeholder 1 ''eventName: string'', Text '','',
      Text [CHR 0x0A, CHR 0x09], Placeholder 2 ''flag: boolean'',
      Text [CHR 0x0A, CHR '')''], Text '';'']
   \<and> map_option (filter is_placeholder \<circ> parts)
       (insertText (completion_item ascii_toUpperCase ascii_toLowerCase
       \<lparr> name = ''TRIGGER_MUSIC_EVENT'', hash = Some ''0x1'',
         params = Some [\<lparr> param_name = ''eventName'', param_type = ''char*'' \<rparr>,
                        \<lparr> param_name = ''flag'', param_type = ''BOOL'' \<rparr>],
         results = Single ''BOOL'', description = Some ''Starts a music event.'',
         module = Some ''CFX'' \<rparr>)) =
     Some [Placeholder 1 ''eventName: string'', Placeholder 2 ''flag: boolean'']
   \<and> map_option parts (insertText (completion_item ascii_toUpperCase ascii_toLowerCase
       \<lparr> name = ''getTime'', hash = Some ''0x2'', params = Some [],
         results = Undefined, description = Some [], module = Some ''CFX'' \<rparr>)) =
     Some [Template ''GetTime('', Text '')'', Text '';'']
   \<and> map_option parts (insertText (completion_item_other
       \<lparr> name = ''TRIGGER_MUSIC_EVENT'', hash = Some ''0x1'',
         params = Some [\<lparr> param_name = ''eventName'', param_type = ''char*'' \<rparr>,
                        \<lparr> param_name = ''flag'', param_type = ''BOOL'' \<rparr>],
         results = Single ''BOOL'', description = Some ''Starts a music event.'',
         module = Some ''CFX'' \<rparr>)) =
     Some [Template ''TRIGGER_MUSIC_EVENT('', Placeholder 1 ''eventName'', Text '', '',
           Placeholder 2 ''flag'', Text '')'']"
proof -
  let ?ps = "[\<lparr> param_name = ''eventName'', param_type = ''char*'' \<rparr>,
             \<lparr> param_name = ''flag'', param_type = ''BOOL'' \<rparr>]"
  let ?n = "\<lparr> name = ''TRIGGER_MUSIC_EVENT'', hash = Some ''0x1'', params = Some ?ps,
         results = Single ''BOOL'', description = Some ''Starts a music event.'',
         module = Some ''CFX'' \<rparr>"
  let ?z = "\<lparr> name = ''getTime'', hash = Some ''0x2'', params = Some [],
         results = Undefined, description = Some [], module = Some ''CFX'' \<rparr>"
  have h: "params ?n = Some ?ps" by simp
  have n1: "toPascalCase ascii_toUpperCase ascii_toLowerCase ''TRIGGER_MUSIC_EVENT'' =
      ''TriggerMusicEvent''" by code_simp
  have n2: "toPascalCase ascii_toUpperCase ascii_toLowerCase ''getTime'' = ''GetTime''"
    by code_simp
  have t1: "mapType ascii_toLowerCase ''char*'' = ''string''" by code_simp
  have t2: "mapType ascii_toLowerCase ''BOOL'' = ''boolean''" by code_simp
  have u: "[1 ..< 1 + length ?ps] = [1, 2]" by (simp add: upt_rec)
  note r = insert_template [of ascii_toUpperCase ascii_toLowerCase ?n]
  from r [THEN conjunct2, THEN conjunct1] obtain snippet where
    s: "insertText (completion_item ascii_toUpperCase ascii_toLowerCase ?n) = Some snippet"
    and p: "parts snippet =
            Template (toPascalCase ascii_toUpperCase ascii_toLowerCase (name ?n) @ ''('') #
            (case params ?n of
               None \<Rightarrow> [Text '')'']
             | Some ps \<Rightarrow>
                 if ps = [] then [Text '')'']
                 else template_params ascii_toLowerCase 1 ps @ [Text [CHR 0x0A, CHR '')'']]) @
            [Text '';'']"
    and f: "\<forall>ps. params ?n = Some ps \<longrightarrow>
             filter is_placeholder (parts snippet) =
               map (\<lambda>(k, p). Placeholder k
                      (param_name p @ '': '' @ mapType ascii_toLowerCase (param_type p)))
                   (zip [1 ..< 1 + length ps] ps)"
    by blast
  from p have a0: "parts snippet =
     [Template ''TriggerMusicEvent('',
      Text [CHR 0x0A, CHR 0x09], Placeholder 1 ''eventName: string'', Text '','',
      Text [CHR 0x0A, CHR 0x09], Placeholder 2 ''flag: boolean'',
      Text [CHR 0x0A, CHR '')''], Text '';'']"
    by (simp add: n1 t1 t2 placeholder_hint_def)
  from f h have "filter is_placeholder (parts snippet) =
               map (\<lambda>(k, p). Placeholder k
                      (param_name p @ '': '' @ mapType ascii_toLowerCase (param_type p)))
                   (zip [1 ..< 1 + length ?ps] ?ps)"
    by blast
  then have b0: "filter is_placeholder (parts snippet) =
     [Placeholder 1 ''eventName: string'', Placeholder 2 ''flag: boolean'']"
    unfolding u by (simp add: t1 t2)
  from s a0 have a: "map_option parts
      (insertText (completion_item ascii_toUpperCase ascii_toLowerCase ?n)) =
     Some [Template ''TriggerMusicEvent('',
      Text [CHR 0x0A, CHR 0x09], Placeholder 1 ''eventName: string'', Text '','',
      Text [CHR 0x0A, CHR 0x09], Placeholder 2 ''flag: boolean'',
      Text [CHR 0x0A, CHR '')''], Text '';'']" by simp
  from s b0 have b: "map_option (filter is_placeholder \<circ> parts)
      (insertText (completion_item ascii_toUpperCase ascii_toLowerCase ?n)) =
     Some [Placeholder 1 ''eventName: string'', Placeholder 2 ''flag: boolean'']" by simp
  from insert_template [of ascii_toUpperCase ascii_toLowerCase ?z, THEN conjunct2, THEN conjunct1]
  obtain snippet' where
    s': "insertText (completion_item ascii_toUpperCase ascii_toLowerCase ?z) = Some snippet'"
    and p': "parts snippet' =
            Template (toPascalCase ascii_toUpperCase ascii_toLowerCase (name ?z) @ ''('') #
            (case params ?z of
               None \<Rightarrow> [Text '')'']
             | Some ps \<Rightarrow>
                 if ps = [] then [Text '')'']
                 else template_params ascii_toLowerCase 1 ps @ [Text [CHR 0x0A, CHR '')'']]) @
            [Text '';'']"
    by blast
  from s' p' have c: "map_option parts
      (insertText (completion_item ascii_toUpperCase ascii_toLowerCase ?z)) =
     Some [Template ''GetTime('', Text '')'', Text '';'']"
    by (simp add: n2)
  from r [THEN conjunct2, THEN conjunct2, THEN conjunct2]
  have d: "map_option parts (insertText (completion_item_other ?n)) =
     Some [Template ''TRIGGER_MUSIC_EVENT('', Placeholder 1 ''eventName'', Text '', '',
           Placeholder 2 ''flag'', Text '')'']"
    by simp
  show ?thesis
    by (rule conjI [OF h conjI [OF a conjI [OF b conjI [OF c d]]]])
qed

section \<open>Flattening the catalog: the loops and the order of the keys\<close>

lemma make_native_normalized:
  "def_name d = Some nm \<Longrightarrow> make_native m h nm d = normalized_record m h d"
  by (simp add: make_native_def normalized_record_def split: option.splits)

lemma parseNatives_inner_eq:
  "parseNatives_inner m obj ks result =
     result @ map (\<lambda>(h, d). normalized_record m h d)
                (filter (\<lambda>(h, d). has_name d)
                   (List.map_filter (\<lambda>k. map_option (Pair k) (get_property obj k)) ks))"
proof (induction ks arbitrary: result)
  case Nil
  then show ?case by (simp add: map_filter_simps)
next
  case (Cons k ks)
  show ?case
  proof (cases "get_property obj k")
    case None
    with Cons.IH show ?thesis by (simp add: map_filter_simps)
  next
    case (Some d)
    show ?thesis
    proof (cases "def_name d")
      case None
      with Some Cons.IH show ?thesis by (simp add: map_filter_simps has_name_def)
    next
      case (Some nm)
      with \<open>get_property obj k = Some d\<close> Cons.IH show ?thesis
        by (simp add: map_filter_simps has_name_def make_native_normalized)
    qed
  qed
qed

lemma parseNatives_outer_eq:
  "\<forall>m \<in> set ms. get_property raw m \<noteq> None \<Longrightarrow>
   parseNatives_outer raw ms result =
     Inr (result @ normalize_in_order
            (map (\<lambda>(m, es). (m, own_entries es))
               (List.map_filter (\<lambda>k. map_option (Pair k) (get_property raw k)) ms)))"
proof (induction ms arbitrary: result)
  case Nil
  then show ?case by (simp add: map_filter_simps normalize_in_order_def)
next
  case (Cons m ms)
  then obtain es where es: "get_property raw m = Some es" by auto
  from Cons.prems have "\<forall>m \<in> set ms. get_property raw m \<noteq> None" by simp
  from Cons.IH [OF this] es show ?case
    by (simp add: map_filter_simps normalize_in_order_def parseNatives_inner_eq own_entries_def)
qed

lemma set_Object_keys: "set (Object_keys obj) = fst ` set obj"
  by (auto simp: Object_keys_def Let_def)

lemma mset_Object_keys: "mset (Object_keys obj) = mset (map fst obj)"
  by (simp add: Object_keys_def Let_def)

lemma get_property_Object_keys: "k \<in> set (Object_keys obj) \<Longrightarrow> get_property obj k \<noteq> None"
  by (simp add: set_Object_keys get_property_def map_of_eq_None_iff)

lemma parseNatives_enumeration:
  "parseNatives raw = Inr (normalize_in_order (enumeration_order raw))"
  unfolding parseNatives_def enumeration_order_def
  by (subst parseNatives_outer_eq) (simp_all add: get_property_Object_keys own_entries_def)

lemma map_filter_all_Some:
  "\<forall>x \<in> set xs. f x = Some (g x) \<Longrightarrow> List.map_filter f xs = map g xs"
  by (induction xs) (simp_all add: map_filter_simps)

lemma own_entries_map:
  "own_entries obj = map (\<lambda>k. (k, the (map_of obj k))) (Object_keys obj)"
  unfolding own_entries_def
proof (rule map_filter_all_Some, rule ballI)
  fix k assume "k \<in> set (Object_keys obj)"
  then have "get_property obj k \<noteq> None" by (rule get_property_Object_keys)
  then show "map_option (Pair k) (get_property obj k) = Some (k, the (map_of obj k))"
    by (auto simp: get_property_def)
qed

lemma distinct_lookup:
  "distinct_keys obj \<Longrightarrow> x \<in> set obj \<Longrightarrow> (fst x, the (map_of obj (fst x))) = x"
  by (cases x) (simp add: distinct_keys_def)

lemma mset_own_entries: "distinct_keys obj \<Longrightarrow> mset (own_entries obj) = mset obj"
proof -
  assume d: "distinct_keys obj"
  have "mset (own_entries obj) = image_mset (\<lambda>k. (k, the (map_of obj k))) (mset (Object_keys obj))"
    by (simp add: own_entries_map)
  also have "\<dots> = image_mset (\<lambda>k. (k, the (map_of obj k))) (mset (map fst obj))"
    by (simp only: mset_Object_keys)
  also have "\<dots> = mset (map (\<lambda>x. (fst x, the (map_of obj (fst x)))) obj)"
    by (simp add: multiset.map_comp comp_def)
  also have "map (\<lambda>x. (fst x, the (map_of obj (fst x)))) obj = map (\<lambda>x. x) obj"
    by (rule map_cong) (simp_all add: distinct_lookup [OF d])
  finally show ?thesis by simp
qed

lemma set_own_entries: "distinct_keys obj \<Longrightarrow> set (own_entries obj) = set obj"
  using mset_own_entries [of obj] by (metis set_mset_mset)

lemma own_entries_no_index:
  assumes "distinct_keys obj" and "\<forall>k \<in> fst ` set obj. \<not> is_array_index k"
  shows "own_entries obj = obj"
proof -
  from assms(2) have f: "filter is_array_index (map fst obj) = []"
    by (auto simp: filter_empty_conv)
  from assms(2) have g: "filter (\<lambda>k. \<not> is_array_index k) (map fst obj) = map fst obj"
    by (auto simp: filter_id_conv)
  have "Object_keys obj = map fst obj"
    by (simp add: Object_keys_def Let_def f g)
  then have "own_entries obj = map (\<lambda>x. (fst x, the (map_of obj (fst x)))) obj"
    by (simp add: own_entries_map comp_def)
  also have "\<dots> = map (\<lambda>x. x) obj"
    by (rule map_cong) (simp_all add: distinct_lookup [OF assms(1)])
  finally show ?thesis by simp
qed

lemma enumeration_order_no_index:
  assumes "well_formed raw" and "no_index_keys raw"
  shows "enumeration_order raw = raw"
proof -
  from assms have top: "own_entries raw = raw"
    by (intro own_entries_no_index) (auto simp: well_formed_def no_index_keys_def list_all_iff)
  have "map (\<lambda>(m, es). (m, own_entries es)) raw = map (\<lambda>x. x) raw"
  proof (rule map_cong)
    fix x assume x: "x \<in> set raw"
    obtain m es where me: "x = (m, es)" by (cases x)
    from assms(1) x me have de: "distinct_keys es"
      by (auto simp: well_formed_def list_all_iff)
    from assms(2) x me have "\<forall>k \<in> fst ` set es. \<not> is_array_index k"
      by (fastforce simp: no_index_keys_def list_all_iff)
    with de have "own_entries es = es"
      by (rule own_entries_no_index)
    with me show "(case x of (m, es) \<Rightarrow> (m, own_entries es)) = x" by simp
  qed simp
  with top show ?thesis by (simp add: enumeration_order_def)
qed

lemma set_normalize_in_order:
  "set (normalize_in_order raw) =
     {normalized_record m h d | m es h d. (m, es) \<in> set raw \<and> (h, d) \<in> set es \<and> has_name d}"
  by (auto simp: normalize_in_order_def)

lemma set_enumeration_order:
  assumes "well_formed raw"
  shows "set (normalize_in_order (enumeration_order raw)) = set (normalize_in_order raw)"
proof -
  from assms have d: "distinct_keys raw" and ds: "\<And>m es. (m, es) \<in> set raw \<Longrightarrow> distinct_keys es"
    by (auto simp: well_formed_def list_all_iff)
  have e: "\<And>m es. (m, es) \<in> set (enumeration_order raw) \<longleftrightarrow>
      (\<exists>es'. (m, es') \<in> set raw \<and> es = own_entries es')"
    by (auto simp: enumeration_order_def set_own_entries [OF d])
  show ?thesis
    unfolding set_normalize_in_order
  proof (intro equalityI subsetI)
    fix r
    assume "r \<in> {normalized_record m h d | m es h d.
              (m, es) \<in> set (enumeration_order raw) \<and> (h, d) \<in> set es \<and> has_name d}"
    then obtain m es h d where r: "r = normalized_record m h d"
      and m: "(m, es) \<in> set (enumeration_order raw)" and h: "(h, d) \<in> set es" "has_name d"
      by blast
    from m e obtain es' where es': "(m, es') \<in> set raw" "es = own_entries es'" by blast
    with h(1) have "(h, d) \<in> set es'" using set_own_entries [OF ds [OF es'(1)]] by simp
    with r es'(1) h(2)
    show "r \<in> {normalized_record m h d | m es h d.
              (m, es) \<in> set raw \<and> (h, d) \<in> set es \<and> has_name d}" by blast
  next
    fix r
    assume "r \<in> {normalized_record m h d | m es h d.
              (m, es) \<in> set raw \<and> (h, d) \<in> set es \<and> has_name d}"
    then obtain m es h d where r: "r = normalized_record m h d"
      and m: "(m, es) \<in> set raw" and h: "(h, d) \<in> set es" "has_name d"
      by blast
    from m e have "(m, own_entries es) \<in> set (enumeration_order raw)" by blast
    moreover from h(1) have "(h, d) \<in> set (own_entries es)"
      using set_own_entries [OF ds [OF m]] by simp
    ultimately
    show "r \<in> {normalized_record m h d | m es h d.
              (m, es) \<in> set (enumeration_order raw) \<and> (h, d) \<in> set es \<and> has_name d}"
      using r h(2) by blast
  qed
qed

lemma length_normalize_in_order: "length (normalize_in_order raw) = named_count raw"
  by (induction raw) (auto simp: normalize_in_order_def named_count_def)

lemma named_count_enumeration:
  assumes "well_formed raw"
  shows "named_count (enumeration_order raw) = named_count raw"
proof -
  let ?h = "\<lambda>(m :: string, es). length (filter (\<lambda>(h :: string, d). has_name d) es)"
  from assms have d: "distinct_keys raw" and ds: "\<And>x. x \<in> set raw \<Longrightarrow> distinct_keys (snd x)"
    by (auto simp: well_formed_def list_all_iff)
  have inner: "length (filter (\<lambda>(h, d). has_name d) (own_entries (snd x))) = ?h x"
    if "x \<in> set raw" for x
  proof -
    have "mset (own_entries (snd x)) = mset (snd x)"
      by (rule mset_own_entries) (rule ds [OF that])
    then have "size (filter_mset (\<lambda>(h, d). has_name d) (mset (own_entries (snd x)))) =
               size (filter_mset (\<lambda>(h, d). has_name d) (mset (snd x)))" by simp
    then have "length (filter (\<lambda>(h, d). has_name d) (own_entries (snd x))) =
               length (filter (\<lambda>(h, d). has_name d) (snd x))"
      by (simp only: mset_filter [symmetric] size_mset)
    then show ?thesis by (cases x) simp
  qed
  have "named_count (enumeration_order raw) =
        sum_list (map (\<lambda>x. ?h (fst x, own_entries (snd x))) (own_entries raw))"
    by (simp add: named_count_def enumeration_order_def comp_def case_prod_beta)
  also have "\<dots> = sum_list (map ?h (own_entries raw))"
    by (rule arg_cong [where f = sum_list], rule map_cong)
       (simp_all add: inner set_own_entries [OF d])
  also have "\<dots> = sum_mset (image_mset ?h (mset (own_entries raw)))"
    by (simp add: sum_mset_sum_list [symmetric])
  also have "\<dots> = sum_mset (image_mset ?h (mset raw))"
    by (simp only: mset_own_entries [OF d])
  also have "\<dots> = sum_list (map ?h raw)"
    by (simp add: sum_mset_sum_list [symmetric])
  finally show ?thesis by (simp add: named_count_def)
qed

section \<open>Flattening the catalog: the records\<close>

lemma normalized_record_fields:
  "def_name d = Some n \<Longrightarrow>
   normalized_record m h d =
     \<lparr> name = n, hash = Some h,
       params = Some (case def_params d of None \<Rightarrow> [] | Some ps \<Rightarrow> ps),
       results = def_results d,
       description = Some (case def_description d of None \<Rightarrow> [] | Some t \<Rightarrow> t),
       module = Some m \<rparr>"
  by (simp add: normalized_record_def split: option.splits)

text \<open>
  The records do not always appear in the order of the document: a module whose key is
  an array index comes before the others, and a catalog with the modules \<^verbatim>\<open>"2"\<close> and
  \<^verbatim>\<open>"1"\<close>, in that order, yields the records of module \<^verbatim>\<open>"1"\<close> first.
\<close>

theorem parseNatives_index_keys_counterexample:
  "well_formed
     [(''2'', [(''0xA'', \<lparr> def_name = Some ''FIRST'', def_params = None,
                           def_results = Undefined, def_description = None \<rparr>)]),
      (''1'', [(''0xB'', \<lparr> def_name = Some ''SECOND'', def_params = None,
                           def_results = Undefined, def_description = None \<rparr>)])]
   \<and> parseNatives
     [(''2'', [(''0xA'', \<lparr> def_name = Some ''FIRST'', def_params = None,
                           def_results = Undefined, def_description = None \<rparr>)]),
      (''1'', [(''0xB'', \<lparr> def_name = Some ''SECOND'', def_params = None,
                           def_results = Undefined, def_description = None \<rparr>)])] =
     Inr [\<lparr> name = ''SECOND'', hash = Some ''0xB'', params = Some [], results = Undefined,
             description = Some [], module = Some ''1'' \<rparr>,
          \<lparr> name = ''FIRST'', hash = Some ''0xA'', params = Some [], results = Undefined,
             description = Some [], module = Some ''2'' \<rparr>]
   \<and> normalize_in_order
     [(''2'', [(''0xA'', \<lparr> def_name = Some ''FIRST'', def_params = None,
                           def_results = Undefined, def_description = None \<rparr>)]),
      (''1'', [(''0xB'', \<lparr> def_name = Some ''SECOND'', def_params = None,
                           def_results = Undefined, def_description = None \<rparr>)])] =
     [\<lparr> name = ''FIRST'', hash = Some ''0xA'', params = Some [], results = Undefined,
        description = Some [], module = Some ''2'' \<rparr>,
      \<lparr> name = ''SECOND'', hash = Some ''0xB'', params = Some [], results = Undefined,
        description = Some [], module = Some ''1'' \<rparr>]"
  by (simp add: well_formed_def distinct_keys_def parseNatives_def Object_keys_def
        is_array_index_def canonical_numeric_def decimal_value_def digit_value_def
        is_digit_def get_property_def make_native_def normalize_in_order_def
        normalized_record_def has_name_def)

text \<open>
  C1 (amended). \<^verbatim>\<open>parseNatives\<close> never throws on a catalog. Its result is the list of
  the records of the named entries, in the order in which \<^verbatim>\<open>Object.keys\<close> enumerates
  the modules and, within each module, the entries: the keys that are array indices
  first, in ascending numeric order, then the other keys in the order of the document.
  When no module key and no entry key is an array index, that is the order of the document.
  For every entry whose name is present and not empty, the result holds a record that
  copies the name, has the entry's own key as hash and the key of the enclosing module as
  module, the parameters or the empty sequence when there are none, the description or the
  empty string when there is none, and the results unchanged.
\<close>

theorem parseNatives_normalizes:
  "parseNatives raw = Inr (normalize_in_order (enumeration_order raw))
   \<and> (well_formed raw \<and> no_index_keys raw \<longrightarrow>
        parseNatives raw = Inr (normalize_in_order raw))
   \<and> (well_formed raw \<and> (m, es) \<in> set raw \<and> (h, d) \<in> set es
        \<and> def_name d = Some n \<and> n \<noteq> [] \<longrightarrow>
        (\<exists>out. parseNatives raw = Inr out \<and>
           \<lparr> name = n, hash = Some h,
             params = Some (case def_params d of None \<Rightarrow> [] | Some ps \<Rightarrow> ps),
             results = def_results d,
             description = Some (case def_description d of None \<Rightarrow> [] | Some t \<Rightarrow> t),
             module = Some m \<rparr> \<in> set out))"
proof -
  have a: "parseNatives raw = Inr (normalize_in_order (enumeration_order raw))"
    by (rule parseNatives_enumeration)
  have b: "well_formed raw \<and> no_index_keys raw \<longrightarrow>
        parseNatives raw = Inr (normalize_in_order raw)"
    using a enumeration_order_no_index by auto
  have c: "well_formed raw \<and> (m, es) \<in> set raw \<and> (h, d) \<in> set es
        \<and> def_name d = Some n \<and> n \<noteq> [] \<longrightarrow>
        (\<exists>out. parseNatives raw = Inr out \<and>
           \<lparr> name = n, hash = Some h,
             params = Some (case def_params d of None \<Rightarrow> [] | Some ps \<Rightarrow> ps),
             results = def_results d,
             description = Some (case def_description d of None \<Rightarrow> [] | Some t \<Rightarrow> t),
             module = Some m \<rparr> \<in> set out)"
  proof (intro impI, elim conjE)
    assume wf: "well_formed raw" and m: "(m, es) \<in> set raw" and h: "(h, d) \<in> set es"
      and n: "def_name d = Some n" "n \<noteq> []"
    from n have "has_name d" by (simp add: has_name_def)
    with m h have "normalized_record m h d \<in> set (normalize_in_order raw)"
      unfolding set_normalize_in_order by blast
    then have "normalized_record m h d \<in> set (normalize_in_order (enumeration_order raw))"
      by (simp only: set_enumeration_order [OF wf])
    with a show "\<exists>out. parseNatives raw = Inr out \<and>
           \<lparr> name = n, hash = Some h,
             params = Some (case def_params d of None \<Rightarrow> [] | Some ps \<Rightarrow> ps),
             results = def_results d,
             description = Some (case def_description d of None \<Rightarrow> [] | Some t \<Rightarrow> t),
             module = Some m \<rparr> \<in> set out"
      by (simp add: normalized_record_fields [OF n(1)])
  qed
  from a b c show ?thesis by blast
qed

lemma distinct_keys_value:
  "distinct_keys obj \<Longrightarrow> (k, v) \<in> set obj \<Longrightarrow> (k, v') \<in> set obj \<Longrightarrow> v = v'"
  unfolding distinct_keys_def by (rule eq_key_imp_eq_value)

text \<open>
  C2. Every record of the normalized list comes from an entry whose name is present
  and not empty, no record comes from an entry whose name is absent or empty, and the
  length of the list is the number of named entries over all modules.
\<close>

theorem parseNatives_drops_unnamed:
  "well_formed raw \<Longrightarrow>
   \<exists>out. parseNatives raw = Inr out
     \<and> length out = named_count raw
     \<and> (\<forall>r \<in> set out. name r \<noteq> [] \<and>
          (\<exists>m es h d. (m, es) \<in> set raw \<and> (h, d) \<in> set es \<and> has_name d
             \<and> r = normalized_record m h d))
     \<and> (\<forall>m es h d. (m, es) \<in> set raw \<and> (h, d) \<in> set es \<and> \<not> has_name d \<longrightarrow>
          (\<forall>r \<in> set out. \<not> (module r = Some m \<and> hash r = Some h)))"
proof -
  assume wf: "well_formed raw"
  let ?out = "normalize_in_order (enumeration_order raw)"
  have p: "parseNatives raw = Inr ?out" by (rule parseNatives_enumeration)
  have l: "length ?out = named_count raw"
    by (simp add: length_normalize_in_order named_count_enumeration [OF wf])
  have s: "set ?out = {normalized_record m h d | m es h d.
      (m, es) \<in> set raw \<and> (h, d) \<in> set es \<and> has_name d}"
    unfolding set_enumeration_order [OF wf] by (rule set_normalize_in_order)
  from wf have d: "distinct_keys raw" and ds: "\<And>m es. (m, es) \<in> set raw \<Longrightarrow> distinct_keys es"
    by (auto simp: well_formed_def list_all_iff)
  have o: "\<forall>r \<in> set ?out. name r \<noteq> [] \<and>
          (\<exists>m es h d. (m, es) \<in> set raw \<and> (h, d) \<in> set es \<and> has_name d
             \<and> r = normalized_record m h d)"
  proof
    fix r assume "r \<in> set ?out"
    with s obtain m es h d where r: "r = normalized_record m h d"
      and m: "(m, es) \<in> set raw" "(h, d) \<in> set es" "has_name d" by blast
    from m(3) r have "name r \<noteq> []"
      by (auto simp: has_name_def normalized_record_def split: option.splits)
    with r m show "name r \<noteq> [] \<and>
          (\<exists>m es h d. (m, es) \<in> set raw \<and> (h, d) \<in> set es \<and> has_name d
             \<and> r = normalized_record m h d)" by blast
  qed
  have x: "\<forall>m es h d. (m, es) \<in> set raw \<and> (h, d) \<in> set es \<and> \<not> has_name d \<longrightarrow>
          (\<forall>r \<in> set ?out. \<not> (module r = Some m \<and> hash r = Some h))"
  proof (intro allI impI ballI notI, elim conjE)
    fix m es h d r
    assume m: "(m, es) \<in> set raw" "(h, d) \<in> set es" "\<not> has_name d"
      and r: "r \<in> set ?out" "module r = Some m" "hash r = Some h"
    from r(1) s obtain m' es' h' d' where r': "r = normalized_record m' h' d'"
      and m': "(m', es') \<in> set raw" "(h', d') \<in> set es'" "has_name d'" by blast
    from r' r(2,3) have "m' = m" "h' = h" by (simp_all add: normalized_record_def)
    with m' m(1) have "es' = es" using distinct_keys_value [OF d] by blast
    with m' m(2) \<open>h' = h\<close> have "d' = d" using distinct_keys_value [OF ds [OF m(1)]] by blast
    with m'(3) m(3) show False by simp
  qed
  from p l o x show ?thesis by blast
qed

lemma example_catalog_well_formed: "well_formed example_catalog"
  by (simp add: example_catalog_def well_formed_def distinct_keys_def)

lemma example_catalog_no_index_keys: "no_index_keys example_catalog"
  by (simp add: example_catalog_def no_index_keys_def is_array_index_def
        canonical_numeric_def is_digit_def)

text \<open>
  The example catalog has no array index among its keys: its two named entries give two
  records in the order of the document.
\<close>

theorem parseNatives_normalizes_witness:
  "well_formed example_catalog \<and> no_index_keys example_catalog
   \<and> parseNatives example_catalog =
       Inr [\<lparr> name = ''TRIGGER_MUSIC_EVENT'', hash = Some ''0x1'',
               params = Some [\<lparr> param_name = ''eventName'', param_type = ''char*'' \<rparr>],
               results = Single ''BOOL'', description = Some ''Starts a music event.'',
               module = Some ''CFX'' \<rparr>,
            \<lparr> name = ''getPed'', hash = Some ''0x4'', params = Some [],
               results = Multiple [''Ped'', ''int''], description = Some [],
               module = Some ''PLAYER'' \<rparr>]
   \<and> (\<exists>out. parseNatives example_catalog = Inr out \<and>
          \<lparr> name = ''getPed'', hash = Some ''0x4'', params = Some [],
            results = Multiple [''Ped'', ''int''], description = Some [],
            module = Some ''PLAYER'' \<rparr> \<in> set out)"
proof -
  let ?d = "\<lparr> def_name = Some ''getPed'', def_params = None,
             def_results = Multiple [''Ped'', ''int''], def_description = None \<rparr>"
  obtain es where m: "(''PLAYER'', es) \<in> set example_catalog" "(''0x4'', ?d) \<in> set es"
    by (simp add: example_catalog_def)
  have n: "def_name ?d = Some ''getPed''" "''getPed'' \<noteq> []" by simp_all
  note third = parseNatives_normalizes
    [of example_catalog "''PLAYER''" es "''0x4''" ?d "''getPed''", THEN conjunct2, THEN conjunct2]
  have pre: "well_formed example_catalog \<and> (''PLAYER'', es) \<in> set example_catalog
      \<and> (''0x4'', ?d) \<in> set es \<and> def_name ?d = Some ''getPed'' \<and> ''getPed'' \<noteq> []"
    using example_catalog_well_formed m n by blast
  from mp [OF third pre]
  have w: "\<exists>out. parseNatives example_catalog = Inr out \<and>
          \<lparr> name = ''getPed'', hash = Some ''0x4'', params = Some [],
            results = Multiple [''Ped'', ''int''], description = Some [],
            module = Some ''PLAYER'' \<rparr> \<in> set out"
    by simp
  have v: "normalize_in_order example_catalog =
       [\<lparr> name = ''TRIGGER_MUSIC_EVENT'', hash = Some ''0x1'',
               params = Some [\<lparr> param_name = ''eventName'', param_type = ''char*'' \<rparr>],
               results = Single ''BOOL'', description = Some ''Starts a music event.'',
               module = Some ''CFX'' \<rparr>,
            \<lparr> name = ''getPed'', hash = Some ''0x4'', params = Some [],
               results = Multiple [''Ped'', ''int''], description = Some [],
               module = Some ''PLAYER'' \<rparr>]"
    by (simp add: example_catalog_def normalize_in_order_def normalized_record_def has_name_def)
  from parseNatives_normalizes [of example_catalog]
    example_catalog_well_formed example_catalog_no_index_keys
  have "parseNatives example_catalog = Inr (normalize_in_order example_catalog)"
    by blast
  with v w example_catalog_well_formed example_catalog_no_index_keys
  show ?thesis by simp
qed

text \<open>The example catalog has two named entries out of four.\<close>

theorem parseNatives_drops_unnamed_witness:
  "well_formed example_catalog
   \<and> named_count example_catalog = 2
   \<and> (\<exists>out. parseNatives example_catalog = Inr out \<and> length out = 2
        \<and> (\<forall>r \<in> set out. \<not> (module r = Some ''CFX'' \<and> hash r = Some ''0x2''))
        \<and> (\<forall>r \<in> set out. \<not> (module r = Some ''PLAYER'' \<and> hash r = Some ''0x3'')))"
proof -
  have c: "named_count example_catalog = 2"
    by (simp add: example_catalog_def named_count_def has_name_def)
  let ?u = "\<lparr> def_name = None, def_params = None, def_results = Undefined,
                     def_description = Some ''unnamed'' \<rparr>"
  let ?e = "\<lparr> def_name = Some '''', def_params = None, def_results = Undefined,
                     def_description = None \<rparr>"
  obtain es1 es2 where m: "(''CFX'', es1) \<in> set example_catalog" "(''0x2'', ?u) \<in> set es1"
     "(''PLAYER'', es2) \<in> set example_catalog" "(''0x3'', ?e) \<in> set es2"
    by (simp add: example_catalog_def)
  have n: "\<not> has_name ?u" "\<not> has_name ?e" by (simp_all add: has_name_def)
  from parseNatives_drops_unnamed [OF example_catalog_well_formed]
  obtain out where out: "parseNatives example_catalog = Inr out"
    "length out = named_count example_catalog"
    "\<forall>m es h d. (m, es) \<in> set example_catalog \<and> (h, d) \<in> set es \<and> \<not> has_name d \<longrightarrow>
          (\<forall>r \<in> set out. \<not> (module r = Some m \<and> hash r = Some h))"
    by blast
  from out(3) m(1,2) n(1)
  have a: "\<forall>r \<in> set out. \<not> (module r = Some ''CFX'' \<and> hash r = Some ''0x2'')" by blast
  from out(3) m(3,4) n(2)
  have b: "\<forall>r \<in> set out. \<not> (module r = Some ''PLAYER'' \<and> hash r = Some ''0x3'')" by blast
  from out(1,2) c a b example_catalog_well_formed show ?thesis by auto
qed

section \<open>The lookup by name\<close>

lemma array_find_None: "array_find xs p = None \<longleftrightarrow> (\<forall>x \<in> set xs. \<not> p x)"
  by (induction xs) auto

lemma array_find_Some:
  "array_find xs p = Some x \<longleftrightarrow>
     (\<exists>i < length xs. xs ! i = x \<and> p x \<and> (\<forall>j < i. \<not> p (xs ! j)))"
proof (induction xs)
  case Nil
  then show ?case by simp
next
  case (Cons y ys)
  show ?case
  proof (cases "p y")
    case True
    have "(\<exists>i < length (y # ys). (y # ys) ! i = x \<and> p x \<and> (\<forall>j < i. \<not> p ((y # ys) ! j)))
          \<longleftrightarrow> y = x"
    proof
      assume "\<exists>i < length (y # ys). (y # ys) ! i = x \<and> p x \<and> (\<forall>j < i. \<not> p ((y # ys) ! j))"
      then obtain i where i: "i < length (y # ys)" "(y # ys) ! i = x"
        "\<forall>j < i. \<not> p ((y # ys) ! j)" by blast
      have "i = 0"
      proof (rule ccontr)
        assume "i \<noteq> 0"
        then have "0 < i" by simp
        with i(3) have "\<not> p ((y # ys) ! 0)" by blast
        with True show False by simp
      qed
      with i(2) show "y = x" by simp
    next
      assume "y = x"
      with True have "0 < length (y # ys) \<and> (y # ys) ! 0 = x \<and> p x
          \<and> (\<forall>j < 0. \<not> p ((y # ys) ! j))" by simp
      then show "\<exists>i < length (y # ys). (y # ys) ! i = x \<and> p x
          \<and> (\<forall>j < i. \<not> p ((y # ys) ! j))" by blast
    qed
    with True show ?thesis by simp
  next
    case False
    have "(\<exists>i < length (y # ys). (y # ys) ! i = x \<and> p x \<and> (\<forall>j < i. \<not> p ((y # ys) ! j)))
          \<longleftrightarrow> (\<exists>i < length ys. ys ! i = x \<and> p x \<and> (\<forall>j < i. \<not> p (ys ! j)))"
      (is "?L \<longleftrightarrow> ?R")
    proof
      assume ?L
      then obtain i where i: "i < length (y # ys)" "(y # ys) ! i = x" "p x"
        "\<forall>j < i. \<not> p ((y # ys) ! j)" by blast
      from i(2,3) False have "i \<noteq> 0" by (cases i) auto
      then obtain k where k: "i = Suc k" by (cases i) auto
      have "\<forall>j < k. \<not> p (ys ! j)"
      proof (intro allI impI)
        fix j assume "j < k"
        then have "Suc j < i" using k by simp
        with i(4) have "\<not> p ((y # ys) ! Suc j)" by blast
        then show "\<not> p (ys ! j)" by simp
      qed
      with i k have "k < length ys \<and> ys ! k = x \<and> p x \<and> (\<forall>j < k. \<not> p (ys ! j))" by simp
      then show ?R by blast
    next
      assume ?R
      then obtain k where k: "k < length ys" "ys ! k = x" "p x" "\<forall>j < k. \<not> p (ys ! j)"
        by blast
      have "\<forall>j < Suc k. \<not> p ((y # ys) ! j)"
      proof (intro allI impI)
        fix j assume "j < Suc k"
        then show "\<not> p ((y # ys) ! j)" using False k(4) by (cases j) auto
      qed
      with k have "Suc k < length (y # ys) \<and> (y # ys) ! Suc k = x \<and> p x
         \<and> (\<forall>j < Suc k. \<not> p ((y # ys) ! j))" by simp
      then show ?L by blast
    qed
    with False Cons.IH show ?thesis by simp
  qed
qed

lemma array_find_append:
  "\<forall>x \<in> set pre. \<not> p x \<Longrightarrow> p a \<Longrightarrow> array_find (pre @ a # post) p = Some a"
  by (induction pre) auto

text \<open>
  Two records named \<^verbatim>\<open>Foo\<close> and \<^verbatim>\<open>FOO\<close> in the modules \<^verbatim>\<open>"2"\<close> and \<^verbatim>\<open>"1"\<close>, in that
  order in the document: \<^verbatim>\<open>parseNatives\<close> lists the record of module \<^verbatim>\<open>"1"\<close> first, and
  the word \<^verbatim>\<open>foo\<close> resolves to it, the later one in the document.
\<close>

theorem find_native_index_keys_counterexample:
  "well_formed index_keyed_catalog
   \<and> normalize_in_order index_keyed_catalog =
       [\<lparr> name = ''Foo'', hash = Some ''0xA'', params = Some [], results = Undefined,
           description = Some [], module = Some ''2'' \<rparr>,
        \<lparr> name = ''FOO'', hash = Some ''0xB'', params = Some [], results = Undefined,
           description = Some [], module = Some ''1'' \<rparr>]
   \<and> parseNatives index_keyed_catalog =
       Inr [\<lparr> name = ''FOO'', hash = Some ''0xB'', params = Some [], results = Undefined,
               description = Some [], module = Some ''1'' \<rparr>,
            \<lparr> name = ''Foo'', hash = Some ''0xA'', params = Some [], results = Undefined,
               description = Some [], module = Some ''2'' \<rparr>]
   \<and> find_native ascii_toLowerCase
       [\<lparr> name = ''FOO'', hash = Some ''0xB'', params = Some [], results = Undefined,
           description = Some [], module = Some ''1'' \<rparr>,
        \<lparr> name = ''Foo'', hash = Some ''0xA'', params = Some [], results = Undefined,
           description = Some [], module = Some ''2'' \<rparr>] ''foo'' =
     Some \<lparr> name = ''FOO'', hash = Some ''0xB'', params = Some [], results = Undefined,
            description = Some [], module = Some ''1'' \<rparr>"
proof -
  have w: "well_formed index_keyed_catalog"
    by (simp add: index_keyed_catalog_def well_formed_def distinct_keys_def)
  have n: "normalize_in_order index_keyed_catalog =
       [\<lparr> name = ''Foo'', hash = Some ''0xA'', params = Some [], results = Undefined,
           description = Some [], module = Some ''2'' \<rparr>,
        \<lparr> name = ''FOO'', hash = Some ''0xB'', params = Some [], results = Undefined,
           description = Some [], module = Some ''1'' \<rparr>]"
    by (simp add: index_keyed_catalog_def normalize_in_order_def normalized_record_def
          has_name_def)
  have p: "parseNatives index_keyed_catalog =
       Inr [\<lparr> name = ''FOO'', hash = Some ''0xB'', params = Some [], results = Undefined,
               description = Some [], module = Some ''1'' \<rparr>,
            \<lparr> name = ''Foo'', hash = Some ''0xA'', params = Some [], results = Undefined,
               description = Some [], module = Some ''2'' \<rparr>]"
    by (simp add: index_keyed_catalog_def parseNatives_def Object_keys_def
        is_array_index_def canonical_numeric_def decimal_value_def digit_value_def
        is_digit_def get_property_def make_native_def)
  have l: "ascii_toLowerCase ''FOO'' = ascii_toLowerCase ''foo''" by code_simp
  have f: "find_native ascii_toLowerCase
       [\<lparr> name = ''FOO'', hash = Some ''0xB'', params = Some [], results = Undefined,
           description = Some [], module = Some ''1'' \<rparr>,
        \<lparr> name = ''Foo'', hash = Some ''0xA'', params = Some [], results = Undefined,
           description = Some [], module = Some ''2'' \<rparr>] ''foo'' =
     Some \<lparr> name = ''FOO'', hash = Some ''0xB'', params = Some [], results = Undefined,
            description = Some [], module = Some ''1'' \<rparr>"
    by (simp add: find_native_def l)
  show ?thesis
    by (rule conjI [OF w conjI [OF n conjI [OF p f]]])
qed

text \<open>
  C8 (amended). The lookup compares the lower-case form of each record's name with the
  lower-case form of the word, in the order of the record list. It finds nothing exactly
  when no record matches, and otherwise returns the matching record with the least index:
  a matching record is returned whenever no record before it matches, whatever follows.
  For a catalog without array indices among its keys, the record list is in the order of
  the document, so that the lookup resolves to the matching record that comes first in the
  document.
\<close>

theorem find_native_first_match:
  "(find_native toLowerCase rs w = None \<longleftrightarrow>
      (\<forall>r \<in> set rs. toLowerCase (name r) \<noteq> toLowerCase w))
   \<and> (find_native toLowerCase rs w = Some r \<longleftrightarrow>
        (\<exists>i < length rs. rs ! i = r \<and> toLowerCase (name r) = toLowerCase w
           \<and> (\<forall>j < i. toLowerCase (name (rs ! j)) \<noteq> toLowerCase w)))
   \<and> ((\<forall>x \<in> set pre. toLowerCase (name x) \<noteq> toLowerCase w)
        \<and> toLowerCase (name a) = toLowerCase w \<longrightarrow>
        find_native toLowerCase (pre @ a # post) w = Some a)
   \<and> (well_formed raw \<and> no_index_keys raw \<longrightarrow>
        (\<exists>natives. parseNatives raw = Inr natives
           \<and> find_native toLowerCase natives w =
               find_native toLowerCase (normalize_in_order raw) w))"
proof -
  have n: "find_native toLowerCase rs w = None \<longleftrightarrow>
      (\<forall>r \<in> set rs. toLowerCase (name r) \<noteq> toLowerCase w)"
    unfolding find_native_def by (rule array_find_None)
  have s: "find_native toLowerCase rs w = Some r \<longleftrightarrow>
        (\<exists>i < length rs. rs ! i = r \<and> toLowerCase (name r) = toLowerCase w
           \<and> (\<forall>j < i. toLowerCase (name (rs ! j)) \<noteq> toLowerCase w))"
    unfolding find_native_def by (rule array_find_Some)
  have a: "(\<forall>x \<in> set pre. toLowerCase (name x) \<noteq> toLowerCase w)
        \<and> toLowerCase (name a) = toLowerCase w \<longrightarrow>
        find_native toLowerCase (pre @ a # post) w = Some a"
    unfolding find_native_def by (simp add: array_find_append)
  have d: "well_formed raw \<and> no_index_keys raw \<longrightarrow>
        (\<exists>natives. parseNatives raw = Inr natives
           \<and> find_native toLowerCase natives w =
               find_native toLowerCase (normalize_in_order raw) w)"
  proof (intro impI, elim conjE)
    assume "well_formed raw" and "no_index_keys raw"
    then have "enumeration_order raw = raw" by (rule enumeration_order_no_index)
    with parseNatives_enumeration [of raw]
    have "parseNatives raw = Inr (normalize_in_order raw)" by simp
    then show "\<exists>natives. parseNatives raw = Inr natives
           \<and> find_native toLowerCase natives w =
               find_native toLowerCase (normalize_in_order raw) w" by simp
  qed
  show ?thesis
    by (rule conjI [OF n conjI [OF s conjI [OF a d]]])
qed

lemma two_module_catalog_well_formed: "well_formed two_module_catalog"
  by (simp add: two_module_catalog_def well_formed_def distinct_keys_def)

lemma two_module_catalog_no_index_keys: "no_index_keys two_module_catalog"
  by (simp add: two_module_catalog_def no_index_keys_def is_array_index_def
        canonical_numeric_def is_digit_def)

text \<open>
  Two records named \<^verbatim>\<open>Foo\<close> and \<^verbatim>\<open>FOO\<close> in the modules \<^verbatim>\<open>CFX\<close> and \<^verbatim>\<open>PLAYER\<close>: the
  word \<^verbatim>\<open>foo\<close> resolves to the first of the document. A word that no record matches
  finds nothing.
\<close>

theorem find_native_first_match_witness:
  "well_formed two_module_catalog \<and> no_index_keys two_module_catalog
   \<and> normalize_in_order two_module_catalog =
       [\<lparr> name = ''Foo'', hash = Some ''0xA'', params = Some [], results = Undefined,
           description = Some [], module = Some ''CFX'' \<rparr>,
        \<lparr> name = ''FOO'', hash = Some ''0xB'', params = Some [], results = Undefined,
           description = Some [], module = Some ''PLAYER'' \<rparr>]
   \<and> ascii_toLowerCase ''Foo'' = ascii_toLowerCase ''foo''
   \<and> ascii_toLowerCase ''FOO'' = ascii_toLowerCase ''foo''
   \<and> (\<exists>natives. parseNatives two_module_catalog = Inr natives
        \<and> find_native ascii_toLowerCase natives ''foo'' =
            Some \<lparr> name = ''Foo'', hash = Some ''0xA'', params = Some [], results = Undefined,
                   description = Some [], module = Some ''CFX'' \<rparr>)
   \<and> find_native ascii_toLowerCase
       [\<lparr> name = ''Foo'', hash = Some ''0xA'', params = Some [], results = Undefined,
           description = Some [], module = Some ''CFX'' \<rparr>] ''bar'' = None"
proof -
  let ?a = "\<lparr> name = ''Foo'', hash = Some ''0xA'', params = Some [], results = Undefined,
           description = Some [], module = Some ''CFX'' \<rparr>"
  let ?b = "\<lparr> name = ''FOO'', hash = Some ''0xB'', params = Some [], results = Undefined,
           description = Some [], module = Some ''PLAYER'' \<rparr>"
  note w = two_module_catalog_well_formed
  note k = two_module_catalog_no_index_keys
  have v: "normalize_in_order two_module_catalog = [?a, ?b]"
    by (simp add: two_module_catalog_def normalize_in_order_def normalized_record_def
          has_name_def)
  have l1: "ascii_toLowerCase ''Foo'' = ascii_toLowerCase ''foo''" by code_simp
  have l2: "ascii_toLowerCase ''FOO'' = ascii_toLowerCase ''foo''" by code_simp
  have l3: "ascii_toLowerCase ''Foo'' \<noteq> ascii_toLowerCase ''bar''" by code_simp
  note t = find_native_first_match
    [of ascii_toLowerCase "[?a, ?b]" "''foo''" ?a "[]" ?a "[?b]" two_module_catalog]
  have pre: "(\<forall>x \<in> set []. ascii_toLowerCase (name x) \<noteq> ascii_toLowerCase ''foo'')
      \<and> ascii_toLowerCase (name ?a) = ascii_toLowerCase ''foo''"
    using l1 by simp
  from t [THEN conjunct2, THEN conjunct2, THEN conjunct1, THEN mp, OF pre]
  have first: "find_native ascii_toLowerCase [?a, ?b] ''foo'' = Some ?a" by simp
  from t [THEN conjunct2, THEN conjunct2, THEN conjunct2, THEN mp, OF conjI [OF w k]]
  obtain natives where p: "parseNatives two_module_catalog = Inr natives"
    and f: "find_native ascii_toLowerCase natives ''foo'' =
        find_native ascii_toLowerCase (normalize_in_order two_module_catalog) ''foo''"
    by blast
  from f v first have "find_native ascii_toLowerCase natives ''foo'' = Some ?a" by simp
  with p have e: "\<exists>natives. parseNatives two_module_catalog = Inr natives
        \<and> find_native ascii_toLowerCase natives ''foo'' = Some ?a" by blast
  from find_native_first_match [of ascii_toLowerCase "[?a]" "''bar''", THEN conjunct1] l3
  have none: "find_native ascii_toLowerCase [?a] ''bar'' = None" by simp
  show ?thesis
    by (rule conjI [OF w conjI [OF k conjI [OF v conjI [OF l1 conjI [OF l2 conjI [OF e none]]]]]])
qed

end
